theory Spec2Isabelle
  imports Main "HOL-Library.Sublist"
begin

section \<open>JavaScript strings\<close>

text \<open>
  A JavaScript string is a sequence of UTF-16 code units. It is modelled as a HOL
  \<^typ>\<open>string\<close>, one \<^typ>\<open>char\<close> per code unit, which covers the code units
  U+0000 to U+00FF (ASCII and Latin-1). On that range the functions below are the
  ECMAScript ones: the white space of \<^verbatim>\<open>trim\<close> and of the regular expression class
  \<^verbatim>\<open>\s\<close> is TAB, LF, VT, FF, CR, SPACE and NBSP, and \<^verbatim>\<open>toLowerCase\<close> maps
  A-Z and U+00C0..U+00DE (without the multiplication sign U+00D7) 32 code units up.
\<close>

definition isWhiteSpace :: "char \<Rightarrow> bool" where
  "isWhiteSpace c = (of_char c \<in> {9, 10, 11, 12, 13, 32, 160 :: nat})"

definition toLowerChar :: "char \<Rightarrow> char" where
  "toLowerChar c =
     (let n = (of_char c :: nat)
      in if (65 \<le> n \<and> n \<le> 90) \<or> (192 \<le> n \<and> n \<le> 222 \<and> n \<noteq> 215)
         then char_of (n + 32) else c)"

definition toLowerCase :: "string \<Rightarrow> string" where
  "toLowerCase s = map toLowerChar s"

definition trimStart :: "string \<Rightarrow> string" where
  "trimStart s = dropWhile isWhiteSpace s"

definition trimEnd :: "string \<Rightarrow> string" where
  "trimEnd s = rev (dropWhile isWhiteSpace (rev s))"

definition trim :: "string \<Rightarrow> string" where
  "trim s = trimEnd (trimStart s)"

text \<open>\<^verbatim>\<open>s.includes(t)\<close>: \<open>t\<close> occurs in \<open>s\<close> as a contiguous run.\<close>

definition strIncludes :: "string \<Rightarrow> string \<Rightarrow> bool" where
  "strIncludes s t = sublist t s"

text \<open>
  \<^verbatim>\<open>s.replace(/[\s_]+/g, '-')\<close>: every maximal run of white space and underscores
  becomes one dash. \<open>replaceRuns\<close> replaces every maximal run of code units of a class by
  one code unit; its flag says whether the previous code unit belonged to a run that has
  already been replaced.
\<close>

definition isSeparator :: "char \<Rightarrow> bool" where
  "isSeparator c = (isWhiteSpace c \<or> c = CHR ''_'')"

fun replaceRuns :: "(char \<Rightarrow> bool) \<Rightarrow> char \<Rightarrow> bool \<Rightarrow> string \<Rightarrow> string" where
  "replaceRuns p r inRun [] = []"
| "replaceRuns p r inRun (c # cs) =
     (if p c
      then (if inRun then replaceRuns p r True cs else r # replaceRuns p r True cs)
      else c # replaceRuns p r False cs)"

definition replaceSeparators :: "string \<Rightarrow> string" where
  "replaceSeparators s = replaceRuns isSeparator CHR ''-'' False s"

text \<open>Template literals print an integer in decimal (\<^verbatim>\<open>`${n}`\<close>).\<close>

definition digitChar :: "nat \<Rightarrow> char" where
  "digitChar d = char_of (48 + d)"

fun showNat :: "nat \<Rightarrow> string" where
  "showNat n = (if n < 10 then [digitChar n] else showNat (n div 10) @ [digitChar (n mod 10)])"

declare showNat.simps [simp del]

definition showInt :: "int \<Rightarrow> string" where
  "showInt i = (if i < 0 then CHR ''-'' # showNat (nat (- i)) else showNat (nat i))"

section \<open>The model catalog\<close>

record ModelPreStep =
  testId :: "string option"
  stepText :: "string option"

record ModelDefinition =
  key :: string
  displayName :: string
  verifyTokens :: "string list"
  optionTestIds :: "string list"
  fallbackTexts :: "string list"
  preSteps :: "ModelPreStep list option"

definition legacySubmenu :: "ModelPreStep list option" where
  "legacySubmenu = Some [\<lparr>testId = Some ''Legacy models-submenu'', stepText = None\<rparr>]"

definition modelCatalog :: "(string \<times> ModelDefinition) list" where
  "modelCatalog =
    [(''gpt-5'',
       \<lparr>key = ''gpt-5'', displayName = ''GPT-5 Auto'',
        verifyTokens = [''chatgpt 5'', ''gpt-5''],
        optionTestIds = [''model-switcher-gpt-5''],
        fallbackTexts = [''GPT-5'', ''Auto''], preSteps = None\<rparr>),
     (''gpt-5-auto'',
       \<lparr>key = ''gpt-5-auto'', displayName = ''GPT-5 Auto'',
        verifyTokens = [''chatgpt 5'', ''gpt-5''],
        optionTestIds = [''model-switcher-gpt-5''],
        fallbackTexts = [''GPT-5'', ''Auto''], preSteps = None\<rparr>),
     (''gpt-5-instant'',
       \<lparr>key = ''gpt-5-instant'', displayName = ''GPT-5 Instant'',
        verifyTokens = [''instant''],
        optionTestIds = [''model-switcher-gpt-5-instant''],
        fallbackTexts = [''Instant''], preSteps = None\<rparr>),
     (''gpt-5-thinking'',
       \<lparr>key = ''gpt-5-thinking'', displayName = ''GPT-5 Thinking'',
        verifyTokens = [''thinking''],
        optionTestIds = [''model-switcher-gpt-5-thinking''],
        fallbackTexts = [''Thinking''], preSteps = None\<rparr>),
     (''gpt-5-pro'',
       \<lparr>key = ''gpt-5-pro'', displayName = ''GPT-5 Pro'',
        verifyTokens = [''pro''],
        optionTestIds = [''model-switcher-gpt-5-pro''],
        fallbackTexts = [''Pro''], preSteps = None\<rparr>),
     (''gpt-4o'',
       \<lparr>key = ''gpt-4o'', displayName = ''GPT-4o'',
        verifyTokens = [''gpt-4o''],
        optionTestIds = [''model-switcher-gpt-4o''],
        fallbackTexts = [''GPT-4o''], preSteps = legacySubmenu\<rparr>),
     (''gpt-4o-mini'',
       \<lparr>key = ''gpt-4o-mini'', displayName = ''GPT-4o mini'',
        verifyTokens = [''gpt-4o mini'', ''mini''],
        optionTestIds = [''model-switcher-gpt-4o-mini''],
        fallbackTexts = [''GPT-4o mini''], preSteps = legacySubmenu\<rparr>)]"

definition buildModelDefinitions :: "string \<rightharpoonup> ModelDefinition" where
  "buildModelDefinitions = map_of modelCatalog"

definition aliasTable :: "(string \<times> string) list" where
  "aliasTable =
    [(''chatgpt-5'', ''gpt-5''),
     (''gpt5'', ''gpt-5''),
     (''gpt5-auto'', ''gpt-5''),
     (''gpt5-pro'', ''gpt-5-pro''),
     (''gpt5-instant'', ''gpt-5-instant''),
     (''gpt5-thinking'', ''gpt-5-thinking''),
     (''gpt-5auto'', ''gpt-5''),
     (''gpt-5pro'', ''gpt-5-pro''),
     (''gpt-5instant'', ''gpt-5-instant''),
     (''gpt-5thinking'', ''gpt-5-thinking''),
     (''gpt-4'', ''gpt-4o''),
     (''gpt4'', ''gpt-4o''),
     (''gpt4o'', ''gpt-4o''),
     (''gpt4omini'', ''gpt-4o-mini''),
     (''gpt-4omini'', ''gpt-4o-mini''),
     (''gpt-4o-mini'', ''gpt-4o-mini''),
     (''gpt-4o-mini-high'', ''gpt-4o-mini'')]"

definition aliasMap :: "string \<rightharpoonup> string" where
  "aliasMap = map_of aliasTable"

text \<open>
  \<^verbatim>\<open>modelName.trim().toLowerCase().replace(/[\s_]+/g, '-')\<close>, the first line of
  \<^verbatim>\<open>resolveModelDefinition\<close>.
\<close>

definition normalizeName :: "string \<Rightarrow> string" where
  "normalizeName modelName = replaceSeparators (toLowerCase (trim modelName))"

text \<open>
  Both tables are plain JavaScript objects, and \<^verbatim>\<open>??\<close> replaces only an undefined or
  null lookup. A name inherited from \<^verbatim>\<open>Object.prototype\<close> (such as
  \<^verbatim>\<open>constructor\<close>) yields a function or object from the alias table, whose string
  form is no property of the catalog, so the result is null there as well, as in this
  model, where such a name is in neither table.
\<close>

definition resolveModelDefinition :: "string \<Rightarrow> ModelDefinition option" where
  "resolveModelDefinition modelName =
     (let normalized = normalizeName modelName;
          k = (case aliasMap normalized of Some a \<Rightarrow> a | None \<Rightarrow> normalized)
      in buildModelDefinitions k)"

section \<open>The instance, the world and the driver\<close>

text \<open>The fields of the class \<^verbatim>\<open>ChatGPT\<close>; a null field is \<open>None\<close>.\<close>

datatype handle = Handle

record ChatGPT =
  browser :: "handle option"
  browserContext :: "handle option"
  page :: "handle option"
  headless :: bool
  stateDir :: string
  profile :: string
  model :: string
  timeout :: int
  retries :: int
  verbose :: bool

record ChatGPTOptions =
  headlessOpt :: "bool option"
  profileOpt :: "string option"
  modelOpt :: "string option"
  timeoutOpt :: "int option"
  retriesOpt :: "int option"
  verboseOpt :: "bool option"

text \<open>
  The constructor. \<^verbatim>\<open>path.join(os.homedir(), '.gpt5-pro-cli', profile)\<close> is written
  as plain concatenation with slashes; the home directory is a parameter.
\<close>

definition newChatGPT :: "string \<Rightarrow> ChatGPTOptions \<Rightarrow> ChatGPT" where
  "newChatGPT homedir options =
     (let p = (case profileOpt options of Some v \<Rightarrow> v | None \<Rightarrow> ''default'')
      in \<lparr>browser = None, browserContext = None, page = None,
          headless = (case headlessOpt options of Some v \<Rightarrow> v | None \<Rightarrow> False),
          stateDir = homedir @ ''/.gpt5-pro-cli/'' @ p,
          profile = p,
          model = (case modelOpt options of Some v \<Rightarrow> v | None \<Rightarrow> ''gpt-5-pro''),
          timeout = (case timeoutOpt options of Some v \<Rightarrow> v | None \<Rightarrow> 60000),
          retries = (case retriesOpt options of Some v \<Rightarrow> v | None \<Rightarrow> 2),
          verbose = (case verboseOpt options of Some v \<Rightarrow> v | None \<Rightarrow> False)\<rparr>)"

text \<open>
  An error is either \<^verbatim>\<open>new Error(message)\<close> thrown by the program itself, or an
  exception of the browser driver or of node, kept as its printed form.
\<close>

datatype error = Error string | DriverError string

definition errorString :: "error \<Rightarrow> string" where
  "errorString e =
     (case e of
        Error m \<Rightarrow> (if m = [] then ''Error'' else ''Error: '' @ m)
      | DriverError s \<Rightarrow> s)"

text \<open>
  What the program does to the outside, in order. A console line is kept as its level
  and message: \<^verbatim>\<open>log\<close> prints a sign for the level, a space and the message,
  \<^verbatim>\<open>debug\<close> prints the message after \<^verbatim>\<open>[DEBUG]\<close>. A click, fill or key press
  names its target by the selector, test id or role the source uses. \<open>Read\<close> is a
  driver call that only returns a value (count, text content, evaluation in the page,
  cookies); \<open>Helper\<close> is a call of a helper method of the class whose body is not
  unfolded here.
\<close>

datatype level = Info | Warn | Err | Debug

datatype action =
    ConsoleLog level string
  | ExecSync string
  | MkdirSync string
  | Launch bool
  | NewContext "string option"
  | NewPage
  | AddInitScript
  | Goto string
  | WaitForTimeout nat
  | WaitForSelector string nat
  | ScrollIntoView string
  | Click string
  | Fill string string
  | Clear string
  | TypeText string string
  | Blur string
  | Press string string
  | Screenshot string
  | StorageState string
  | Read string
  | Helper string

text \<open>
  The world: the wall clock in milliseconds (\<^verbatim>\<open>Date.now()\<close>) and the calls made so
  far. The environment decides, from the world at the moment of a call, whether the call
  throws, how long it takes, and what a read returns; it is arbitrary, so every
  behaviour of the browser and of the page is covered.
\<close>

record world =
  now :: nat
  trace :: "action list"

record env =
  fails :: "world \<Rightarrow> action \<Rightarrow> string option"
  duration :: "world \<Rightarrow> action \<Rightarrow> nat"
  assistantTexts :: "world \<Rightarrow> string list"
  thinkingShown :: "world \<Rightarrow> bool"
  triggerLabel :: "world \<Rightarrow> string option"
  optionClicked :: "world \<Rightarrow> bool"
  copied :: "world \<Rightarrow> string option"
  sessionPayload :: "world \<Rightarrow> bool"
  cookieNames :: "world \<Rightarrow> string list"
  envVar :: "string \<Rightarrow> string option"
  stdout :: "world \<Rightarrow> string"
  inputValue :: "world \<Rightarrow> string"
  otpFound :: "world \<Rightarrow> bool"
  answer :: "world \<Rightarrow> string"
  locatorCount :: "world \<Rightarrow> string \<Rightarrow> nat"
  bodyText :: "world \<Rightarrow> string"
  authenticated :: "world \<Rightarrow> bool"
  url :: "world \<Rightarrow> string"
  pathExists :: "world \<Rightarrow> string \<Rightarrow> bool"
  parsable :: "world \<Rightarrow> string \<Rightarrow> bool"

type_synonym 'a prog = "world \<Rightarrow> (error + 'a) \<times> world"

definition ret :: "'a \<Rightarrow> 'a prog" where
  "ret x = (\<lambda>w. (Inr x, w))"

definition raise :: "error \<Rightarrow> 'a prog" where
  "raise e = (\<lambda>w. (Inl e, w))"

definition andThen :: "'a prog \<Rightarrow> ('a \<Rightarrow> 'b prog) \<Rightarrow> 'b prog" where
  "andThen m f = (\<lambda>w. case m w of (Inl e, w') \<Rightarrow> (Inl e, w') | (Inr x, w') \<Rightarrow> f x w')"

definition catch :: "'a prog \<Rightarrow> (error \<Rightarrow> 'a prog) \<Rightarrow> 'a prog" where
  "catch m h = (\<lambda>w. case m w of (Inl e, w') \<Rightarrow> h e w' | (Inr x, w') \<Rightarrow> (Inr x, w'))"

fun steps :: "unit prog list \<Rightarrow> unit prog" where
  "steps [] = ret ()"
| "steps (m # ms) = andThen m (\<lambda>_. steps ms)"

definition observe :: "(world \<Rightarrow> 'a) \<Rightarrow> 'a prog" where
  "observe f = (\<lambda>w. (Inr (f w), w))"

text \<open>
  A call takes the time the environment says; \<^verbatim>\<open>waitForTimeout(ms)\<close> takes at least
  \<open>ms\<close>. Console output takes no time and does not fail.
\<close>

definition cost :: "env \<Rightarrow> world \<Rightarrow> action \<Rightarrow> nat" where
  "cost env w a = (case a of WaitForTimeout ms \<Rightarrow> ms + duration env w a | _ \<Rightarrow> duration env w a)"

definition advance :: "env \<Rightarrow> action \<Rightarrow> world \<Rightarrow> world" where
  "advance env a w = w\<lparr>now := now w + cost env w a, trace := trace w @ [a]\<rparr>"

definition perform :: "env \<Rightarrow> action \<Rightarrow> unit prog" where
  "perform env a =
     (\<lambda>w. case fails env w a of
             Some msg \<Rightarrow> (Inl (DriverError msg), advance env a w)
           | None \<Rightarrow> (Inr (), advance env a w))"

definition infallible :: "env \<Rightarrow> action \<Rightarrow> unit prog" where
  "infallible env a = (\<lambda>w. (Inr (), advance env a w))"

definition console :: "level \<Rightarrow> string \<Rightarrow> unit prog" where
  "console l message = (\<lambda>w. (Inr (), w\<lparr>trace := trace w @ [ConsoleLog l message]\<rparr>))"

definition log :: "ChatGPT \<Rightarrow> level \<Rightarrow> string \<Rightarrow> unit prog" where
  "log c l message = (if \<not> verbose c \<and> l = Info then ret () else console l message)"

definition debug :: "ChatGPT \<Rightarrow> string \<Rightarrow> unit prog" where
  "debug c message = (if verbose c then console Debug message else ret ())"

section \<open>Model selection\<close>

definition longRunningModels :: "string list" where
  "longRunningModels =
     [''gpt-5'', ''gpt5'', ''gpt-5-pro'', ''gpt5-pro'', ''gpt-5-thinking'', ''gpt5-thinking'']"

definition getResponseTimeout :: "ChatGPT \<Rightarrow> int" where
  "getResponseTimeout c =
     (let base = timeout c;
          normalizedModel = replaceSeparators (toLowerCase (model c));
          requiresLongTimeout = list_ex (\<lambda>name. strIncludes normalizedModel name) longRunningModels;
          minimum = (if requiresLongTimeout then 30 * 60 * 1000 else 0)
      in max base minimum)"

definition triggerSelector :: string where
  \<open>triggerSelector = ''button[data-testid="model-switcher-dropdown-button"]:visible''\<close>

definition textContent :: "env \<Rightarrow> string option prog" where
  "textContent env = andThen (perform env (Read ''trigger.textContent'')) (\<lambda>_. observe (triggerLabel env))"

text \<open>
  \<^verbatim>\<open>!labelRaw\<close> holds for null and for the empty string. Anything thrown inside is
  caught and gives false.
\<close>

definition isModelAlreadySelected :: "env \<Rightarrow> ModelDefinition \<Rightarrow> bool prog" where
  "isModelAlreadySelected env definition =
     catch
       (andThen (textContent env) (\<lambda>labelRaw.
          case labelRaw of
            None \<Rightarrow> ret False
          | Some raw \<Rightarrow>
              if raw = [] then ret False
              else (let label = toLowerCase raw
                    in ret (list_ex (\<lambda>token. strIncludes label token) (verifyTokens definition)))))
       (\<lambda>_. ret False)"

definition composerSelectors :: "string list" where
  \<open>composerSelectors =
     [''[data-testid="composer"]'',
      ''textarea#prompt-textarea'',
      ''textarea[placeholder*="Ask anything" i]'',
      ''textarea[placeholder*="Message" i]'',
      ''div[contenteditable="true"]'']\<close>

fun tryComposerSelectors :: "env \<Rightarrow> ChatGPT \<Rightarrow> string list \<Rightarrow> unit prog" where
  "tryComposerSelectors env c [] = debug c ''Composer did not load within expected time''"
| "tryComposerSelectors env c (selector # selectors) =
     catch (perform env (WaitForSelector selector 5000)) (\<lambda>_. tryComposerSelectors env c selectors)"

definition ensureComposerReady :: "env \<Rightarrow> ChatGPT \<Rightarrow> unit prog" where
  "ensureComposerReady env c =
     (if page c = None then ret () else tryComposerSelectors env c composerSelectors)"

text \<open>
  \<^verbatim>\<open>applyModelSelection\<close> clicks through the opened picker; it may throw, and
  returns whether an option was clicked.
\<close>

definition applyModelSelection :: "env \<Rightarrow> ModelDefinition \<Rightarrow> bool prog" where
  "applyModelSelection env definition =
     andThen (perform env (Helper (''applyModelSelection '' @ key definition))) (\<lambda>_. observe (optionClicked env))"

definition openPicker :: "env \<Rightarrow> ChatGPT \<Rightarrow> bool prog" where
  \<open>openPicker env c =
     catch
       (andThen
          (steps [perform env (ScrollIntoView triggerSelector),
                  perform env (Click triggerSelector),
                  perform env (WaitForSelector ''[role="menu"], [data-state="open"]'' 3000),
                  debug c ''Model picker opened''])
          (\<lambda>_. ret True))
       (\<lambda>error. andThen (log c Warn (''Failed to open model picker: '' @ errorString error))
                   (\<lambda>_. ret False))\<close>

definition selectModel :: "env \<Rightarrow> ChatGPT \<Rightarrow> string \<Rightarrow> unit prog" where
  \<open>selectModel env c modelName =
     (if page c = None then raise (Error ''Browser not initialized'')
      else
        andThen (log c Info (''Selecting model: '' @ modelName)) (\<lambda>_.
        case resolveModelDefinition modelName of
          None \<Rightarrow> log c Warn (''Model "'' @ modelName @ ''" is not recognized; skipping model switch'')
        | Some definition \<Rightarrow>
            andThen (isModelAlreadySelected env definition) (\<lambda>already.
            if already then debug c (''Already using '' @ modelName)
            else
              andThen (ensureComposerReady env c) (\<lambda>_.
              andThen (openPicker env c) (\<lambda>opened.
              if \<not> opened then ret ()
              else
                andThen (applyModelSelection env definition) (\<lambda>applied.
                if \<not> applied
                then steps [log c Warn (''Could not find model option for '' @ modelName),
                            catch (perform env (Press ''keyboard'' ''Escape'')) (\<lambda>_. ret ())]
                else
                  andThen (perform env (WaitForTimeout 1200)) (\<lambda>_.
                  andThen (isModelAlreadySelected env definition) (\<lambda>confirmed.
                  if confirmed
                  then log c Info (''Model '' @ displayName definition @ '' selected successfully'')
                  else
                    andThen (textContent env) (\<lambda>raw.
                    let label = (case raw of Some t \<Rightarrow> trim t | None \<Rightarrow> ''(unavailable)'')
                    in steps [debug c (''Model picker label after selection: '' @ label),
                              log c Info (''Triggered '' @ displayName definition
                                          @ '' selection (confirmation unavailable)'')])))))))))\<close>

section \<open>Query\<close>

definition assistantSelector :: string where
  \<open>assistantSelector = ''[data-message-author-role="assistant"]''\<close>

definition inputSelector :: string where
  \<open>inputSelector =
     ''textarea#prompt-textarea, textarea[placeholder*="Message" i], div[contenteditable="true"]''\<close>

text \<open>\<^verbatim>\<open>locator(assistantSelector).count()\<close> and \<^verbatim>\<open>.all()\<close>, which gives one locator
  per element, that is, their number.\<close>

definition countAssistant :: "env \<Rightarrow> nat prog" where
  "countAssistant env =
     andThen (perform env (Read ''assistant.count'')) (\<lambda>_. observe (\<lambda>w. length (assistantTexts env w)))"

definition allAssistant :: "env \<Rightarrow> nat prog" where
  "allAssistant env =
     andThen (perform env (Read ''assistant.all'')) (\<lambda>_. observe (\<lambda>w. length (assistantTexts env w)))"

text \<open>
  \<^verbatim>\<open>messages[i].evaluate(node => node.innerText || '')\<close>: the locator is resolved
  again when it is evaluated; an element that is gone makes the driver throw.
\<close>

definition innerText :: "env \<Rightarrow> nat \<Rightarrow> string prog" where
  "innerText env i =
     andThen (perform env (Read ''message.innerText'')) (\<lambda>_ w.
       if i < length (assistantTexts env w) then (Inr (assistantTexts env w ! i), w)
       else (Inl (DriverError ''locator.evaluate: element not found''), w))"

text \<open>\<^verbatim>\<open>copyAssistantResponse\<close> catches whatever is thrown inside and returns null then.\<close>

definition copyAssistantResponse :: "env \<Rightarrow> string option prog" where
  "copyAssistantResponse env =
     andThen (infallible env (Helper ''copyAssistantResponse'')) (\<lambda>_. observe (copied env))"

definition thinkingCheck :: "env \<Rightarrow> ChatGPT \<Rightarrow> unit prog" where
  "thinkingCheck env c =
     (if verbose c
      then andThen (perform env (Read ''body.thinking'')) (\<lambda>_.
           andThen (observe (thinkingShown env)) (\<lambda>thinking.
             if thinking then log c Info ''Assistant is still thinking...'' else ret ()))
      else ret ())"

definition timeoutError :: "int \<Rightarrow> error" where
  "timeoutError responseTimeout = Error (''Response timeout after '' @ showInt responseTimeout @ ''ms'')"

definition pollIntervalMs :: nat where
  "pollIntervalMs = 2000"

definition requiredStableChecks :: nat where
  "requiredStableChecks = 3"

lemma perform_now: "perform env a w = (r, w') \<Longrightarrow> now w \<le> now w'"
  by (auto simp: perform_def advance_def split: option.splits)

lemma wait_now: "perform env (WaitForTimeout ms) w = (r, w') \<Longrightarrow> now w + ms \<le> now w'"
  by (auto simp: perform_def advance_def cost_def split: option.splits)

lemma console_now: "console l m w = (r, w') \<Longrightarrow> now w' = now w"
  by (auto simp: console_def)

lemma log_now: "log c l m w = (r, w') \<Longrightarrow> now w' = now w"
  by (auto simp: log_def ret_def console_def split: if_splits)

lemma debug_now: "debug c m w = (r, w') \<Longrightarrow> now w' = now w"
  by (auto simp: debug_def ret_def console_def split: if_splits)

lemma countAssistant_now: "countAssistant env w = (r, w') \<Longrightarrow> now w \<le> now w'"
  by (auto simp: countAssistant_def andThen_def observe_def split: prod.splits sum.splits dest: perform_now)

lemma allAssistant_now: "allAssistant env w = (r, w') \<Longrightarrow> now w \<le> now w'"
  by (auto simp: allAssistant_def andThen_def observe_def split: prod.splits sum.splits dest: perform_now)

lemma innerText_now: "innerText env i w = (r, w') \<Longrightarrow> now w \<le> now w'"
  by (auto simp: innerText_def andThen_def split: prod.splits sum.splits if_splits dest: perform_now)

lemma thinkingCheck_now: "thinkingCheck env c w = (r, w') \<Longrightarrow> now w \<le> now w'"
  by (fastforce simp: thinkingCheck_def andThen_def observe_def ret_def
           split: prod.splits sum.splits if_splits dest: perform_now log_now)

text \<open>
  The arrival phase: \<^verbatim>\<open>while (Date.now() < responseDeadline)\<close> with a poll of the
  message count and a wait of the poll interval. Each turn moves the clock forward by
  the interval or more, which is why the loop ends.
\<close>

function arrivalLoop :: "env \<Rightarrow> ChatGPT \<Rightarrow> int \<Rightarrow> nat \<Rightarrow> unit prog" where
  "arrivalLoop env c responseDeadline initialMessages w =
     (if int (now w) < responseDeadline then
        (case countAssistant env w of
           (Inl e, w1) \<Rightarrow> (Inl e, w1)
         | (Inr currentCount, w1) \<Rightarrow>
             if currentCount > initialMessages
             then debug c (''New assistant message detected ('' @ showNat currentCount @ '' > ''
                           @ showNat initialMessages @ '')'') w1
             else (case thinkingCheck env c w1 of
                     (Inl e, w2) \<Rightarrow> (Inl e, w2)
                   | (Inr _, w2) \<Rightarrow>
                       (case perform env (WaitForTimeout pollIntervalMs) w2 of
                          (Inl e, w3) \<Rightarrow> (Inl e, w3)
                        | (Inr _, w3) \<Rightarrow> arrivalLoop env c responseDeadline initialMessages w3)))
      else (Inr (), w))"
  by pat_completeness auto
termination
proof (relation "measure (\<lambda>(env, c, responseDeadline, initialMessages, w). nat (responseDeadline - int (now w)))",
       goal_cases)
  case 1
  show ?case by simp
next
  case (2 env c responseDeadline initialMessages w x1 w1 currentCount x2 w2 u x3 w3 v)
  have "now w \<le> now w1"
    using 2(2) countAssistant_now [of env w x1 w1] by simp
  moreover have "now w1 \<le> now w2"
    using 2(5) thinkingCheck_now [of env c w1 x2 w2] by simp
  moreover have "now w2 + pollIntervalMs \<le> now w3"
    using 2(7) wait_now [of env pollIntervalMs w2 x3 w3] by simp
  ultimately show ?case
    using 2(1) by (simp add: pollIntervalMs_def)
qed

text \<open>
  The comparison of the current length with the previous one (the body of the
  stabilization loop after the empty-text test): it returns the new
  \<^verbatim>\<open>previousLength\<close> and \<^verbatim>\<open>stableCount\<close>.
\<close>

definition updateStability :: "ChatGPT \<Rightarrow> nat \<Rightarrow> nat \<Rightarrow> nat \<Rightarrow> (nat \<times> nat) prog" where
  "updateStability c previousLength stableCount currentLength =
     (if currentLength = previousLength
      then andThen
             (debug c (''Response length stable at '' @ showNat currentLength @ '' characters (''
                       @ showNat (stableCount + 1) @ ''/'' @ showNat requiredStableChecks @ '')''))
             (\<lambda>_. ret (previousLength, stableCount + 1))
      else andThen
             (debug c (''Response length changed ('' @ showNat previousLength @ '' -> ''
                       @ showNat currentLength @ '')''))
             (\<lambda>_. ret (currentLength, 0)))"

text \<open>What the loop does once \<^verbatim>\<open>stableCount >= requiredStableChecks\<close>.\<close>

definition finalizeResponse :: "env \<Rightarrow> string \<Rightarrow> string prog" where
  "finalizeResponse env trimmedText =
     (if length trimmedText = 0 then raise (Error ''Empty response received'')
      else andThen (copyAssistantResponse env) (\<lambda>copied.
             case copied of
               None \<Rightarrow> ret trimmedText
             | Some text \<Rightarrow> if text \<noteq> [] \<and> length (trim text) > 0 then ret (trim text) else ret trimmedText))"

definition notReadyNotice :: "ChatGPT \<Rightarrow> unit prog" where
  "notReadyNotice c =
     (if verbose c then log c Info ''Assistant response not ready yet, continuing to wait...'' else ret ())"

lemma updateStability_now: "updateStability c p s n w = (r, w') \<Longrightarrow> now w' = now w"
  by (auto simp: updateStability_def andThen_def ret_def debug_def console_def split: if_splits)

lemma notReadyNotice_now: "notReadyNotice c w = (r, w') \<Longrightarrow> now w' = now w"
  by (auto simp: notReadyNotice_def ret_def log_def console_def split: if_splits)

text \<open>
  One turn of the stabilization loop (the body of the \<^verbatim>\<open>while\<close>): it ends with
  \<^verbatim>\<open>continue\<close> or the end of the body, leaving the new \<^verbatim>\<open>previousLength\<close> and
  \<^verbatim>\<open>stableCount\<close>, or with \<^verbatim>\<open>return\<close>, or it throws. The wait is its first
  statement.
\<close>

datatype turn = Continue nat nat | Return string

definition stabilizeBody :: "env \<Rightarrow> ChatGPT \<Rightarrow> nat \<Rightarrow> nat \<Rightarrow> turn prog" where
  "stabilizeBody env c previousLength stableCount =
     andThen (perform env (WaitForTimeout 2000)) (\<lambda>_.
     andThen (allAssistant env) (\<lambda>messages.
       if messages = 0
       then andThen (debug c ''Assistant message collection empty, waiting...'')
              (\<lambda>_. ret (Continue previousLength stableCount))
       else
         andThen (innerText env (messages - 1)) (\<lambda>currentText.
           let trimmedText = trim currentText;
               currentLength = length trimmedText
           in if currentLength = 0
              then andThen (notReadyNotice c) (\<lambda>_. ret (Continue 0 0))
              else
                andThen (updateStability c previousLength stableCount currentLength)
                  (\<lambda>(previousLength', stableCount').
                     if stableCount' \<ge> requiredStableChecks
                     then andThen (finalizeResponse env trimmedText) (\<lambda>text. ret (Return text))
                     else ret (Continue previousLength' stableCount')))))"

lemma stabilizeBody_now:
  assumes "stabilizeBody env c p s w = (r, w')"
  shows "now w + 2000 \<le> now w'"
proof -
  obtain r1 w1 where 1: "perform env (WaitForTimeout 2000) w = (r1, w1)"
    by (cases "perform env (WaitForTimeout 2000) w")
  obtain r2 w2 where 2: "allAssistant env w1 = (r2, w2)"
    by (cases "allAssistant env w1")
  have a: "now w + 2000 \<le> now w1"
    using 1 by (rule wait_now)
  have b: "now w1 \<le> now w2"
    using 2 by (rule allAssistant_now)
  show ?thesis
    using assms 1 2 a b
    by (auto simp: stabilizeBody_def andThen_def ret_def Let_def finalizeResponse_def raise_def
          copyAssistantResponse_def infallible_def advance_def observe_def
          split: sum.splits prod.splits if_splits option.splits
          dest!: debug_now innerText_now notReadyNotice_now updateStability_now)
qed

function stabilizeLoop :: "env \<Rightarrow> ChatGPT \<Rightarrow> int \<Rightarrow> int \<Rightarrow> nat \<Rightarrow> nat \<Rightarrow> string prog" where
  "stabilizeLoop env c responseTimeout responseDeadline previousLength stableCount w =
     (if int (now w) < responseDeadline then
        (case stabilizeBody env c previousLength stableCount w of
           (Inl e, w') \<Rightarrow> (Inl e, w')
         | (Inr (Return text), w') \<Rightarrow> (Inr text, w')
         | (Inr (Continue previousLength' stableCount'), w') \<Rightarrow>
             stabilizeLoop env c responseTimeout responseDeadline previousLength' stableCount' w')
      else (Inl (timeoutError responseTimeout), w))"
  by pat_completeness auto
termination
proof (relation "measure (\<lambda>(env, c, responseTimeout, responseDeadline, previousLength, stableCount, w).
                            nat (responseDeadline - int (now w)))",
       goal_cases)
  case 1
  show ?case by simp
next
  case (2 env c responseTimeout responseDeadline previousLength stableCount w x w' t p s)
  have "now w + 2000 \<le> now w'"
    using 2(2) [symmetric] by (rule stabilizeBody_now)
  then show ?case
    using 2(1) by simp
qed

declare arrivalLoop.simps [simp del]
declare stabilizeLoop.simps [simp del]

text \<open>
  \<^verbatim>\<open>query\<close>. The deadline is \<^verbatim>\<open>Date.now() + responseTimeout\<close>, read after the prompt
  is submitted.
\<close>

definition awaitResponse :: "env \<Rightarrow> ChatGPT \<Rightarrow> nat \<Rightarrow> string prog" where
  "awaitResponse env c initialMessages =
     (\<lambda>w. let responseTimeout = getResponseTimeout c;
              responseDeadline = int (now w) + responseTimeout
          in andThen (arrivalLoop env c responseDeadline initialMessages) (\<lambda>_.
             andThen (countAssistant env) (\<lambda>confirmedCount.
               if confirmedCount \<le> initialMessages then raise (timeoutError responseTimeout)
               else stabilizeLoop env c responseTimeout responseDeadline 0 0)) w)"

definition query :: "env \<Rightarrow> ChatGPT \<Rightarrow> string \<Rightarrow> string prog" where
  "query env c prompt =
     (if page c = None then raise (Error ''Browser not initialized'')
      else
        andThen (selectModel env c (model c)) (\<lambda>_.
        andThen (log c Info ''Submitting prompt...'') (\<lambda>_.
        andThen (perform env (WaitForSelector inputSelector 10000)) (\<lambda>_.
        andThen (countAssistant env) (\<lambda>initialMessages.
        andThen
          (steps [debug c (''Initial assistant messages: '' @ showNat initialMessages),
                  perform env (Fill inputSelector prompt),
                  perform env (WaitForTimeout 500),
                  perform env (Press ''keyboard'' ''Enter''),
                  log c Info ''Waiting for response...''])
          (\<lambda>_. awaitResponse env c initialMessages))))))"

section \<open>Credentials\<close>

record Credentials =
  email :: string
  password :: string

text \<open>\<^verbatim>\<open>value.replace(/\r?\n$/, '')\<close>: one line end at the very end is removed.\<close>

definition stripTrailingNewline :: "string \<Rightarrow> string" where
  "stripTrailingNewline v =
     (if v \<noteq> [] \<and> last v = CHR 0x0A
      then (let b = butlast v in if b \<noteq> [] \<and> last b = CHR 0x0D then butlast b else b)
      else v)"

definition execSync :: "env \<Rightarrow> string \<Rightarrow> string prog" where
  "execSync env command = andThen (perform env (ExecSync command)) (\<lambda>_. observe (stdout env))"

text \<open>\<^verbatim>\<open>process.env.NAME || fallback\<close>: an unset or empty variable gives the fallback.\<close>

definition envOr :: "env \<Rightarrow> string \<Rightarrow> string \<Rightarrow> string" where
  "envOr env name fallback =
     (case envVar env name of None \<Rightarrow> fallback | Some v \<Rightarrow> if v = [] then fallback else v)"

definition credentialsHelp :: "string \<Rightarrow> string" where
  \<open>credentialsHelp emailRef =
     ''Failed to read credentials from 1Password.'' @ [CHR 0x0A]
     @ ''Make sure:'' @ [CHR 0x0A]
     @ ''  1. 1Password CLI is installed (op)'' @ [CHR 0x0A]
     @ ''  2. You'' @ [CHR 0x27] @ ''re signed in: op signin'' @ [CHR 0x0A]
     @ ''  3. Item exists at: '' @ emailRef @ [CHR 0x0A]
     @ ''Error: ''\<close>

definition getCredentials :: "env \<Rightarrow> Credentials prog" where
  \<open>getCredentials env =
     (let emailRef = envOr env ''ONEPASSWORD_EMAIL_REF'' ''op://Private/OpenAI/username'';
          passwordRef = envOr env ''ONEPASSWORD_PASSWORD_REF'' ''op://Private/OpenAI/password''
      in catch
           (andThen (execSync env (''op read "'' @ emailRef @ ''"'')) (\<lambda>out1.
            andThen (execSync env (''op read "'' @ passwordRef @ ''"'')) (\<lambda>out2.
              let e = stripTrailingNewline out1;
                  p = stripTrailingNewline out2
              in if e = [] \<or> p = []
                 then raise (Error ''Email or password is empty from 1Password'')
                 else ret \<lparr>email = e, password = p\<rparr>)))
           (\<lambda>error. raise (Error (credentialsHelp emailRef @ errorString error))))\<close>

section \<open>Login\<close>

definition sessionCookieNames :: "string list" where
  "sessionCookieNames =
     [''__Secure-next-auth.session-token'', ''next-auth.session-token'',
      ''__Secure-openai-session-token'', ''openai-session'']"

text \<open>
  \<^verbatim>\<open>checkIfLoggedIn\<close>: the evaluation in the page (its result is the environment's
  \<open>sessionPayload\<close>) inside a try, then the cookies of the context.
\<close>

definition checkIfLoggedIn :: "env \<Rightarrow> ChatGPT \<Rightarrow> bool prog" where
  "checkIfLoggedIn env c =
     (if page c = None then ret False
      else
        andThen
          (catch
             (andThen (perform env (Read ''page.evaluate session'')) (\<lambda>_.
              andThen (observe (sessionPayload env)) (\<lambda>hasSession.
                if hasSession
                then andThen (debug c ''Detected authenticated session payload'') (\<lambda>_. ret True)
                else ret False)))
             (\<lambda>error. andThen (debug c (''Failed to inspect __NEXT_DATA__: '' @ errorString error))
                         (\<lambda>_. ret False)))
          (\<lambda>found.
             if found then ret True
             else if browserContext c \<noteq> None
             then andThen (perform env (Read ''context.cookies'')) (\<lambda>_.
                  andThen (observe (cookieNames env)) (\<lambda>cookies.
                    if list_ex (\<lambda>name. name \<in> set sessionCookieNames) cookies
                    then andThen (debug c ''Detected authenticated session via cookies'') (\<lambda>_. ret True)
                    else ret False))
             else ret False))"

definition statePathOf :: "ChatGPT \<Rightarrow> string" where
  "statePathOf c = stateDir c @ ''/browser-state.json''"

definition saveSession :: "env \<Rightarrow> ChatGPT \<Rightarrow> unit prog" where
  "saveSession env c =
     (if browserContext c = None then ret ()
      else steps [perform env (StorageState (statePathOf c)),
                  log c Info ''Session saved for future use''])"

definition landingUrl :: string where
  "landingUrl = ''https://chatgpt.com/''"

definition emailBox :: string where "emailBox = ''textbox: Email address''"
definition passwordBox :: string where "passwordBox = ''textbox: Password''"
definition continueButton :: string where "continueButton = ''button: Continue''"

text \<open>Lines 218 to 274 of \<^verbatim>\<open>loginInteractive\<close>: the credentials go into the page.\<close>

definition enterCredentials :: "env \<Rightarrow> ChatGPT \<Rightarrow> Credentials \<Rightarrow> unit prog" where
  "enterCredentials env c cr =
     andThen
       (steps [log c Info ''Clicking login button...'',
               perform env (Click ''testid: login-button''),
               perform env (WaitForTimeout 2000),
               log c Info ''Entering email...'',
               perform env (Fill emailBox (email cr)),
               perform env (WaitForTimeout 500),
               perform env (Click continueButton),
               perform env (WaitForTimeout 3000),
               log c Info ''Entering password...'',
               perform env (Click passwordBox),
               perform env (WaitForTimeout 500),
               perform env (Clear passwordBox),
               perform env (WaitForTimeout 500),
               debug c ''Typing password with simulated delays'',
               perform env (TypeText passwordBox (password cr)),
               perform env (WaitForTimeout 500),
               perform env (Read ''password.inputValue'')])
       (\<lambda>_.
     andThen (observe (inputValue env)) (\<lambda>fieldValue.
     andThen
       (steps [debug c (''Password field length after fill: '' @ showNat (length fieldValue) @ '' chars''),
               (if length fieldValue \<noteq> length (password cr)
                then log c Warn (''Password field length mismatch (expected ''
                                 @ showNat (length (password cr)) @ '', got ''
                                 @ showNat (length fieldValue) @ '')'')
                else ret ()),
               perform env (Blur passwordBox),
               perform env (WaitForTimeout 500)])
       (\<lambda>_.
     andThen
       (catch
          (andThen (perform env (Click continueButton))
             (\<lambda>_. andThen (log c Info ''Submitting password...'') (\<lambda>_. ret True)))
          (\<lambda>error. andThen (debug c (''Continue button click failed ('' @ errorString error
                                        @ '') - falling back to Enter''))
                      (\<lambda>_. ret False)))
       (\<lambda>submitted.
     steps [(if \<not> submitted
             then steps [perform env (Press passwordBox ''Enter''),
                         log c Info ''Submitting password with Enter key...'']
             else ret ()),
            perform env (WaitForTimeout 3000),
            perform env (Screenshot ''/tmp/after-password-submit.png''),
            log c Info ''Screenshot saved: /tmp/after-password-submit.png'']))))"

text \<open>
  Lines 280 to 371: the one-time code. \<^verbatim>\<open>waitForOtpInputs\<close> polls for the inputs and
  may throw; \<^verbatim>\<open>prompt2FA\<close> asks the operator and returns the trimmed answer.
\<close>

definition waitForOtpInputs :: "env \<Rightarrow> bool prog" where
  "waitForOtpInputs env =
     andThen (perform env (Helper ''waitForOtpInputs'')) (\<lambda>_. observe (otpFound env))"

definition prompt2FA :: "env \<Rightarrow> string prog" where
  "prompt2FA env =
     andThen (infallible env (Helper ''prompt2FA'')) (\<lambda>_. observe (\<lambda>w. trim (answer env w)))"

definition otpInput :: "nat \<Rightarrow> string" where
  "otpInput i = ''otp input '' @ showNat i"

definition digitSteps :: "env \<Rightarrow> string \<Rightarrow> nat \<Rightarrow> unit prog list" where
  "digitSteps env digits visibleOtpCount =
     concat (map (\<lambda>i. [perform env (Fill (otpInput i) []),
                        perform env (TypeText (otpInput i) [digits ! i]),
                        perform env (WaitForTimeout 40)])
                 [0 ..< min (length digits) visibleOtpCount])"

definition submitSelectors :: "string list" where
  \<open>submitSelectors =
     [''button:has-text("Continue")'', ''button:has-text("Verify")'',
      ''button:has-text("Submit")'', ''button:has-text("Next")'',
      ''button:has-text("Confirm")'', ''button[type="submit"]'']\<close>

fun trySubmitSelectors :: "env \<Rightarrow> ChatGPT \<Rightarrow> string list \<Rightarrow> bool prog" where
  "trySubmitSelectors env c [] = ret False"
| "trySubmitSelectors env c (selector # selectors) =
     andThen (perform env (Read ''submit.count'')) (\<lambda>_.
     andThen (observe (\<lambda>w. locatorCount env w (selector @ '':visible''))) (\<lambda>n.
       if n > 0
       then catch
              (andThen (perform env (Click (selector @ '':visible'')))
                 (\<lambda>_. andThen (debug c (''Clicked OTP submit button ('' @ selector @ '')''))
                         (\<lambda>_. ret True)))
              (\<lambda>error. andThen (debug c (''Failed to click '' @ selector @ '': '' @ errorString error))
                          (\<lambda>_. trySubmitSelectors env c selectors))
       else trySubmitSelectors env c selectors))"

definition enterCode :: "env \<Rightarrow> ChatGPT \<Rightarrow> string \<Rightarrow> nat \<Rightarrow> unit prog" where
  "enterCode env c code visibleOtpCount =
     steps
       ([log c Info ''Entering verification code...'',
         perform env (Click (otpInput 0)),
         perform env (WaitForTimeout 200)]
        @ (if visibleOtpCount \<le> 1
           then [perform env (Fill (otpInput 0) []),
                 perform env (TypeText ''keyboard'' code)]
           else digitSteps env code visibleOtpCount
                @ [if length code > visibleOtpCount
                   then log c Warn (''Verification code has '' @ showNat (length code)
                          @ '' digits but only '' @ showNat visibleOtpCount
                          @ '' inputs were detected. Extra digits were ignored.'')
                   else ret ()])
        @ [perform env (WaitForTimeout 500)])"

definition verifyEmailCode :: "env \<Rightarrow> ChatGPT \<Rightarrow> unit prog" where
  "verifyEmailCode env c =
     andThen (log c Info ''Checking for email verification...'') (\<lambda>_.
     andThen (waitForOtpInputs env) (\<lambda>codeInputs.
       if codeInputs
       then
         andThen (perform env (Read ''otp.count'')) (\<lambda>_.
         andThen (observe (\<lambda>w. locatorCount env w ''otp'')) (\<lambda>visibleOtpCount.
         andThen
           (steps [debug c (''Detected '' @ showNat visibleOtpCount @ '' OTP inputs''),
                   log c Info ''Email verification required - check your email for code''])
           (\<lambda>_.
         andThen (prompt2FA env) (\<lambda>typed.
           let code = filter (\<lambda>ch. \<not> isWhiteSpace ch) typed
           in if code = [] then raise (Error ''Verification code was empty'')
              else
                andThen (enterCode env c code visibleOtpCount) (\<lambda>_.
                andThen (trySubmitSelectors env c submitSelectors) (\<lambda>submitClicked.
                  steps [(if \<not> submitClicked
                          then steps [debug c ''No visible submit button detected for OTP, pressing Enter instead'',
                                      perform env (Press ''keyboard'' ''Enter'')]
                          else ret ()),
                         perform env (WaitForTimeout 5000)]))))))
       else
         andThen (debug c ''No email verification prompt detected after password submission'') (\<lambda>_.
           if verbose c
           then andThen (perform env (Read ''body.innerText'')) (\<lambda>_.
                andThen (observe (bodyText env)) (\<lambda>body.
                  debug c (''Page text preview: ''
                           @ trim (replaceRuns isWhiteSpace CHR '' '' False (take 500 body)))))
           else ret ())))"

text \<open>\<^verbatim>\<open>waitForAuthenticatedSession\<close> polls for up to ninety seconds and never throws.\<close>

definition waitForAuthenticatedSession :: "env \<Rightarrow> bool prog" where
  "waitForAuthenticatedSession env =
     andThen (infallible env (Helper ''waitForAuthenticatedSession'')) (\<lambda>_. observe (authenticated env))"

definition confirmLogin :: "env \<Rightarrow> ChatGPT \<Rightarrow> unit prog" where
  "confirmLogin env c =
     andThen (log c Info ''Waiting for login to complete...'') (\<lambda>_.
     andThen (waitForAuthenticatedSession env) (\<lambda>loginSuccess.
       if loginSuccess
       then steps [log c Info ''Logged in successfully!'', saveSession env c]
       else
         andThen (perform env (Screenshot ''/tmp/login-failed.png'')) (\<lambda>_.
         andThen (observe (url env)) (\<lambda>u.
           raise (Error (''Login failed - could not find chat interface. URL: '' @ u
                         @ ''. Screenshot: /tmp/login-failed.png''))))))"

definition loginInteractive :: "env \<Rightarrow> ChatGPT \<Rightarrow> unit prog" where
  "loginInteractive env c =
     (if page c = None then raise (Error ''Browser not initialized'')
      else
        andThen (getCredentials env) (\<lambda>cr.
        andThen
          (steps [log c Info ''Navigating to https://chatgpt.com/...'',
                  perform env (Goto landingUrl),
                  perform env (WaitForTimeout 2000)])
          (\<lambda>_.
        andThen (checkIfLoggedIn env c) (\<lambda>isLoggedIn.
          if isLoggedIn
          then steps [log c Info ''Already logged in!'', saveSession env c]
          else steps [enterCredentials env c cr, verifyEmailCode env c, confirmLogin env c]))))"

section \<open>Initialization\<close>







section \<open>Notions of the specification\<close>



text \<open>
  Containment that ignores letter case: some contiguous part of the label equals the
  token up to case.
\<close>

definition segments :: "string \<Rightarrow> string list" where
  "segments s = concat (map prefixes (suffixes s))"

definition containsIgnoringCase :: "string \<Rightarrow> string \<Rightarrow> bool" where
  "containsIgnoringCase label token =
     (\<exists>part \<in> set (segments label). toLowerCase part = toLowerCase token)"

text \<open>The verification substrings of a definition are lowercase and not empty.\<close>

definition lowercaseTokens :: "ModelDefinition \<Rightarrow> bool" where
  "lowercaseTokens d = (\<forall>token \<in> set (verifyTokens d). token \<noteq> [] \<and> toLowerCase token = token)"

text \<open>The label that the model switcher shows when it is read in world \<open>w\<close>, if the read succeeds.\<close>

definition currentLabel :: "env \<Rightarrow> world \<Rightarrow> string option" where
  "currentLabel env w =
     (case fails env w (Read ''trigger.textContent'') of
        Some _ \<Rightarrow> None
      | None \<Rightarrow> triggerLabel env (advance env (Read ''trigger.textContent'') w))"

section \<open>Example instances and environments\<close>

definition noOptions :: ChatGPTOptions where
  "noOptions = \<lparr>headlessOpt = None, profileOpt = None, modelOpt = None,
                timeoutOpt = None, retriesOpt = None, verboseOpt = None\<rparr>"

text \<open>The instance the command line builds without options: model and timeout are its defaults.\<close>

definition cliDefault :: ChatGPT where
  "cliDefault =
     (newChatGPT ''/home/user''
        (noOptions\<lparr>headlessOpt := Some True, profileOpt := Some ''default'',
                   modelOpt := Some ''GPT-5 Pro'', timeoutOpt := Some 60000,
                   retriesOpt := Some 2, verboseOpt := Some False\<rparr>))
       \<lparr>browser := Some Handle, browserContext := Some Handle, page := Some Handle\<rparr>"



text \<open>An environment in which no call fails or takes time and the page shows nothing.\<close>

definition idleEnv :: env where
  "idleEnv =
     \<lparr>fails = (\<lambda>w a. None), duration = (\<lambda>w a. 0), assistantTexts = (\<lambda>w. []),
      thinkingShown = (\<lambda>w. False), triggerLabel = (\<lambda>w. None), optionClicked = (\<lambda>w. False),
      copied = (\<lambda>w. None), sessionPayload = (\<lambda>w. False), cookieNames = (\<lambda>w. []),
      envVar = (\<lambda>name. None), stdout = (\<lambda>w. []), inputValue = (\<lambda>w. []),
      otpFound = (\<lambda>w. False), answer = (\<lambda>w. []), locatorCount = (\<lambda>w selector. 0),
      bodyText = (\<lambda>w. []), authenticated = (\<lambda>w. False), url = (\<lambda>w. []),
      pathExists = (\<lambda>w path. False), parsable = (\<lambda>w path. False)\<rparr>"

definition startWorld :: world where
  "startWorld = \<lparr>now = 0, trace = []\<rparr>"

definition proDefinition :: ModelDefinition where
  "proDefinition = snd (modelCatalog ! 4)"

definition proLabelEnv :: env where
  "proLabelEnv = idleEnv\<lparr>triggerLabel := (\<lambda>w. Some ''ChatGPT 5 Pro'')\<rparr>"

text \<open>
  The simulated stream of the stabilization test: the rendered text of the last
  assistant message at each poll, with trimmed lengths 0, 5, 5, 5, 8, 8, 8, 8. The
  polls made so far are the reads of the message list in the trace; the copy affordance
  yields nothing, so the rendered text is what is returned.
\<close>

definition simSamples :: "string list" where
  "simSamples = ['''', ''aaaaa'', ''bbbbb'', ''ccccc'',
                 ''dddddddd'', ''eeeeeeee'', ''ffffffff'', ''gggggggg'']"

definition pollsTaken :: "world \<Rightarrow> nat" where
  "pollsTaken w = length (filter (\<lambda>a. a = Read ''assistant.all'') (trace w))"

definition simEnv :: env where
  "simEnv =
     idleEnv\<lparr>assistantTexts :=
               (\<lambda>w. let k = pollsTaken w
                    in if 1 \<le> k \<and> k \<le> length simSamples then [simSamples ! (k - 1)] else [])\<rparr>"

text \<open>
  What one turn of the stabilization loop decides from the previous length, the count
  and the rendered text, when nothing is copied.
\<close>

definition simTurn :: "nat \<Rightarrow> nat \<Rightarrow> string \<Rightarrow> turn" where
  "simTurn p s text =
     (let n = length (trim text)
      in if n = 0 then Continue 0 0
         else if n = p then (if s + 1 \<ge> 3 then Return (trim text) else Continue p (s + 1))
         else Continue n 0)"

section \<open>Notions used in the proofs\<close>

text \<open>
  A reliable environment is one in which no driver call throws. \<open>raisesOnly P m\<close>: every
  error that \<open>m\<close> throws satisfies \<open>P\<close>. \<open>forward m\<close>: \<open>m\<close> never sets the clock back.
\<close>

definition reliable :: "env \<Rightarrow> bool" where
  "reliable env = (\<forall>w a. fails env w a = None)"

definition raisesOnly :: "(error \<Rightarrow> bool) \<Rightarrow> 'a prog \<Rightarrow> bool" where
  "raisesOnly P m = (\<forall>w e w'. m w = (Inl e, w') \<longrightarrow> P e)"

definition forward :: "'a prog \<Rightarrow> bool" where
  "forward m = (\<forall>w r w'. m w = (r, w') \<longrightarrow> now w \<le> now w')"

definition isDriverError :: "error \<Rightarrow> bool" where
  "isDriverError e = (case e of DriverError _ \<Rightarrow> True | Error _ \<Rightarrow> False)"

text \<open>An error that a driver call threw, which a reliable environment excludes.\<close>

definition driverFault :: "env \<Rightarrow> error \<Rightarrow> bool" where
  "driverFault env e = (isDriverError e \<and> \<not> reliable env)"


text \<open>
  What one turn and the whole stabilization phase may end with: an exception of the
  driver, the timeout error, or a text that is not empty after trimming.
\<close>

definition goodTurn :: "(error + turn) \<Rightarrow> bool" where
  "goodTurn r = (case r of Inl e \<Rightarrow> isDriverError e
                 | Inr (Return x) \<Rightarrow> trim x \<noteq> []
                 | Inr (Continue p s) \<Rightarrow> True)"

definition goodOutcome :: "int \<Rightarrow> (error + string) \<Rightarrow> bool" where
  "goodOutcome rt r = (case r of Inl e \<Rightarrow> e = timeoutError rt \<or> isDriverError e
                       | Inr x \<Rightarrow> trim x \<noteq> [])"

text \<open>The names the selector recognizes after normalization: catalog keys and aliases.\<close>

definition recognizedNames :: "string list" where
  "recognizedNames = map fst modelCatalog @ map fst aliasTable"

text \<open>
  Kinds of calls in a trace: input into the page; the load of the landing page and the
  session probe; the creation of the browser context.
\<close>

fun isPageInput :: "action \<Rightarrow> bool" where
  "isPageInput (Click target) = True"
| "isPageInput (Fill target v) = True"
| "isPageInput (Clear target) = True"
| "isPageInput (TypeText target v) = True"
| "isPageInput (Blur target) = True"
| "isPageInput (Press target k) = True"
| "isPageInput a = False"

definition isLandingCall :: "action \<Rightarrow> bool" where
  "isLandingCall a =
     (a = Goto landingUrl \<or> a = Read ''page.evaluate session'' \<or> a = Read ''context.cookies'')"

fun isNewContext :: "action \<Rightarrow> bool" where
  "isNewContext (NewContext storageState) = True"
| "isNewContext a = False"

text \<open>
  \<open>keeps f m\<close>: running \<open>m\<close> leaves the observation \<open>f\<close> of the world as it was.
  \<open>returnsOnly Q m\<close>: every value that \<open>m\<close> returns satisfies \<open>Q\<close>.
\<close>

definition keeps :: "(world \<Rightarrow> 'b) \<Rightarrow> 'a prog \<Rightarrow> bool" where
  "keeps f m = (\<forall>w r w'. m w = (r, w') \<longrightarrow> f w' = f w)"

definition returnsOnly :: "('a \<Rightarrow> bool) \<Rightarrow> 'a prog \<Rightarrow> bool" where
  "returnsOnly Q m = (\<forall>w x w'. m w = (Inr x, w') \<longrightarrow> Q x)"

text \<open>
  The secret manager is signed out while the page would show a session; a landing page
  that shows a session, with credentials at hand; a state file that exists and cannot be
  parsed; an instance fresh from the constructor.
\<close>

definition signedOutEnv :: env where
  "signedOutEnv =
     idleEnv\<lparr>fails := (\<lambda>w a. case a of ExecSync command \<Rightarrow> Some ''op: not signed in'' | _ \<Rightarrow> None),
              sessionPayload := (\<lambda>w. True)\<rparr>"

definition signedOutError :: error where
  "signedOutError = Error (credentialsHelp ''op://Private/OpenAI/username'' @ ''op: not signed in'')"

definition loggedInEnv :: env where
  "loggedInEnv = idleEnv\<lparr>stdout := (\<lambda>w. ''secret'' @ [CHR 0x0A]), sessionPayload := (\<lambda>w. True)\<rparr>"



text \<open>
  Spellings of a model name that differ only by letter case, by a run of white space
  or underscores where the other has a dash between two words, by a known alias, or by
  normalization.
\<close>

inductive sameSpelling :: "string \<Rightarrow> string \<Rightarrow> bool" where
  byCase: "toLowerCase s = toLowerCase t \<Longrightarrow> sameSpelling s t"
| bySeparator: "r \<noteq> [] \<Longrightarrow> list_all isSeparator r \<Longrightarrow> a \<noteq> [] \<Longrightarrow> \<not> isSeparator (last a)
              \<Longrightarrow> b \<noteq> [] \<Longrightarrow> \<not> isSeparator (hd b)
              \<Longrightarrow> sameSpelling (a @ r @ b) (a @ ''-'' @ b)"
| byAlias: "(a, k) \<in> set aliasTable \<Longrightarrow> sameSpelling a k"
| byNormalization: "sameSpelling s (normalizeName s)"
| bySymmetry: "sameSpelling s t \<Longrightarrow> sameSpelling t s"
| byTransitivity: "sameSpelling s t \<Longrightarrow> sameSpelling t u \<Longrightarrow> sameSpelling s u"

section \<open>Facts about strings\<close>

lemma of_char_toLowerChar_cases:
  "toLowerChar c = c \<or> (of_char (toLowerChar c) :: nat) = of_char c + 32 \<and>
     ((65 \<le> (of_char c :: nat) \<and> (of_char c :: nat) \<le> 90) \<or>
      (192 \<le> (of_char c :: nat) \<and> (of_char c :: nat) \<le> 222))"
  by (auto simp: toLowerChar_def Let_def)

lemma isWhiteSpace_toLowerChar [simp]: "isWhiteSpace (toLowerChar c) = isWhiteSpace c"
  using of_char_toLowerChar_cases [of c] by (auto simp: isWhiteSpace_def)

section \<open>The response deadline\<close>




section \<open>The check for the selected model\<close>

lemma set_segments: "set (segments s) = {part. sublist part s}"
  by (auto simp: segments_def sublist_altdef')

lemma sublist_map_iff: "sublist t (map f l) \<longleftrightarrow> (\<exists>part. sublist part l \<and> map f part = t)"
proof
  assume "sublist t (map f l)"
  then obtain ps ss where "map f l = ps @ t @ ss"
    by (auto simp: sublist_def)
  then obtain l1 r where r: "l = l1 @ r" "map f r = t @ ss"
    by (metis map_eq_append_conv)
  then obtain l2 l3 where "r = l2 @ l3" "map f l2 = t"
    by (metis map_eq_append_conv)
  with r have "l = l1 @ l2 @ l3" "map f l2 = t"
    by simp_all
  then show "\<exists>part. sublist part l \<and> map f part = t"
    by (auto simp: sublist_def)
next
  assume "\<exists>part. sublist part l \<and> map f part = t"
  then obtain part ps ss where "l = ps @ part @ ss" "map f part = t"
    by (auto simp: sublist_def)
  then have "map f l = map f ps @ t @ map f ss"
    by simp
  then show "sublist t (map f l)"
    unfolding sublist_def by blast
qed

lemma strIncludes_toLowerCase:
  "toLowerCase token = token \<Longrightarrow>
   strIncludes (toLowerCase label) token = containsIgnoringCase label token"
  by (auto simp: strIncludes_def containsIgnoringCase_def set_segments toLowerCase_def sublist_map_iff)

lemma containsIgnoringCase_empty_label:
  "token \<noteq> [] \<Longrightarrow> \<not> containsIgnoringCase [] token"
  by (simp add: containsIgnoringCase_def set_segments toLowerCase_def)

lemma catalog_all_lowercase: "list_all (\<lambda>(k, d). lowercaseTokens d) modelCatalog"
  by code_simp

lemma catalog_lowercaseTokens:
  assumes "buildModelDefinitions k = Some d"
  shows "lowercaseTokens d"
proof -
  have "(k, d) \<in> set modelCatalog"
    using assms by (auto simp: buildModelDefinitions_def dest: map_of_SomeD)
  then show ?thesis
    using catalog_all_lowercase by (auto simp: list_all_iff)
qed

lemma resolved_lowercaseTokens:
  "resolveModelDefinition name = Some d \<Longrightarrow> lowercaseTokens d"
  by (auto simp: resolveModelDefinition_def Let_def intro: catalog_lowercaseTokens)

text \<open>
  Claim C8. For a definition whose verification substrings are lowercase and not empty,
  as all those of the catalog are, the check answers true exactly when the label read
  from the model switcher contains one of the substrings, letter case ignored. When the
  label cannot be read or is null there is no label, and the answer is false.
\<close>

theorem isModelAlreadySelected_iff:
  assumes "lowercaseTokens d"
  shows "fst (isModelAlreadySelected env d w) =
           Inr (case currentLabel env w of
                  None \<Rightarrow> False
                | Some label \<Rightarrow> \<exists>token \<in> set (verifyTokens d). containsIgnoringCase label token)"
proof (cases "fails env w (Read ''trigger.textContent'')")
  case (Some msg)
  then show ?thesis
    by (simp add: isModelAlreadySelected_def catch_def andThen_def textContent_def perform_def
          ret_def currentLabel_def)
next
  case None
  show ?thesis
  proof (cases "triggerLabel env (advance env (Read ''trigger.textContent'') w)")
    case inner: None
    with None show ?thesis
      by (simp add: isModelAlreadySelected_def catch_def andThen_def textContent_def perform_def
            ret_def currentLabel_def observe_def)
  next
    case (Some raw)
    have tokens: "\<And>token. token \<in> set (verifyTokens d) \<Longrightarrow>
                    strIncludes (toLowerCase raw) token = containsIgnoringCase raw token"
      using assms by (simp add: lowercaseTokens_def strIncludes_toLowerCase)
    have empty: "raw = [] \<Longrightarrow> \<not> (\<exists>token \<in> set (verifyTokens d). containsIgnoringCase raw token)"
      using assms by (auto simp: lowercaseTokens_def containsIgnoringCase_empty_label)
    show ?thesis
      using None Some tokens empty
      by (auto simp: isModelAlreadySelected_def catch_def andThen_def textContent_def perform_def
            ret_def currentLabel_def observe_def Let_def list_ex_iff)
  qed
qed

theorem isModelAlreadySelected_iff_witness:
  "resolveModelDefinition ''GPT-5 Pro'' = Some proDefinition
   \<and> lowercaseTokens proDefinition
   \<and> currentLabel proLabelEnv startWorld = Some ''ChatGPT 5 Pro''
   \<and> containsIgnoringCase ''ChatGPT 5 Pro'' ''pro''
   \<and> fst (isModelAlreadySelected proLabelEnv proDefinition startWorld) = Inr True"
proof -
  have a: "lowercaseTokens proDefinition" by code_simp
  have r: "resolveModelDefinition ''GPT-5 Pro'' = Some proDefinition" by code_simp
  have b: "currentLabel proLabelEnv startWorld = Some ''ChatGPT 5 Pro''"
    by (simp add: currentLabel_def proLabelEnv_def idleEnv_def)
  have c: "containsIgnoringCase ''ChatGPT 5 Pro'' ''pro''" by code_simp
  have d: "''pro'' \<in> set (verifyTokens proDefinition)" by code_simp
  show ?thesis
    using a r b c d isModelAlreadySelected_iff [OF a, of proLabelEnv startWorld]
    by auto
qed

section \<open>The stabilization phase on the simulated stream\<close>

lemma stabilizeLoop_continue:
  assumes "int (now w) < dl" "stabilizeBody env c p s w = (Inr (Continue p' s'), w')"
  shows "stabilizeLoop env c rt dl p s w = stabilizeLoop env c rt dl p' s' w'"
  using assms by (subst stabilizeLoop.simps) simp

lemma stabilizeLoop_return:
  assumes "int (now w) < dl" "stabilizeBody env c p s w = (Inr (Return text), w')"
  shows "stabilizeLoop env c rt dl p s w = (Inr text, w')"
  using assms by (subst stabilizeLoop.simps) simp

lemma stabilizeLoop_deadline:
  assumes "\<not> int (now w) < dl"
  shows "stabilizeLoop env c rt dl p s w = (Inl (timeoutError rt), w)"
  using assms by (subst stabilizeLoop.simps) simp

lemma pollsTaken_advance:
  "pollsTaken (advance env a w) = pollsTaken w + (if a = Read ''assistant.all'' then 1 else 0)"
  by (simp add: pollsTaken_def advance_def)

lemma now_advance_sim: "now (advance simEnv a w) = now w + (case a of WaitForTimeout ms \<Rightarrow> ms | _ \<Rightarrow> 0)"
  by (simp add: advance_def cost_def simEnv_def idleEnv_def split: action.splits)

lemma sim_texts:
  "1 \<le> pollsTaken w \<Longrightarrow> pollsTaken w \<le> 8 \<Longrightarrow> assistantTexts simEnv w = [simSamples ! (pollsTaken w - 1)]"
  by (simp add: simEnv_def idleEnv_def Let_def simSamples_def)

lemma sim_body:
  assumes "pollsTaken w = k" "k < 8" "\<not> verbose c"
  shows "\<exists>w'. stabilizeBody simEnv c p s w = (Inr (simTurn p s (simSamples ! k)), w')
              \<and> pollsTaken w' = k + 1 \<and> now w' = now w + 2000"
proof -
  define w1 where "w1 = advance simEnv (WaitForTimeout 2000) w"
  define w2 where "w2 = advance simEnv (Read ''assistant.all'') w1"
  define w3 where "w3 = advance simEnv (Read ''message.innerText'') w2"
  have f: "\<And>w a. fails simEnv w a = None" "\<And>w. copied simEnv w = None"
    by (simp_all add: simEnv_def idleEnv_def)
  have p2: "pollsTaken w2 = k + 1" and p3: "pollsTaken w3 = k + 1"
    using assms by (simp_all add: w1_def w2_def w3_def pollsTaken_advance)
  have t2: "assistantTexts simEnv w2 = [simSamples ! k]" and t3: "assistantTexts simEnv w3 = [simSamples ! k]"
    using p2 p3 assms sim_texts [of w2] sim_texts [of w3] by simp_all
  have n3: "now w3 = now w + 2000"
    by (simp add: w1_def w2_def w3_def now_advance_sim)
  have w: "perform simEnv (WaitForTimeout 2000) w = (Inr (), w1)"
    by (simp add: perform_def f w1_def)
  have a: "allAssistant simEnv w1 = (Inr 1, w2)"
    by (simp add: allAssistant_def andThen_def perform_def f w2_def [symmetric] observe_def t2)
  have i: "innerText simEnv 0 w2 = (Inr (simSamples ! k), w3)"
    by (simp add: innerText_def andThen_def perform_def f w3_def [symmetric] t3)
  have c: "\<And>x. infallible simEnv (Helper ''copyAssistantResponse'') x = (Inr (), advance simEnv (Helper ''copyAssistantResponse'') x)"
    by (simp add: infallible_def)
  show ?thesis
    using assms(3) p3 n3
    by (auto simp: stabilizeBody_def andThen_def w a i Let_def simTurn_def notReadyNotice_def ret_def
          updateStability_def debug_def requiredStableChecks_def finalizeResponse_def
          copyAssistantResponse_def c observe_def f pollsTaken_advance now_advance_sim)
qed


lemma sim_turns:
  "simTurn 0 0 (simSamples ! 0) = Continue 0 0"
  "simTurn 0 0 (simSamples ! 1) = Continue 5 0"
  "simTurn 5 0 (simSamples ! 2) = Continue 5 1"
  "simTurn 5 1 (simSamples ! 3) = Continue 5 2"
  "simTurn 5 2 (simSamples ! 4) = Continue 8 0"
  "simTurn 8 0 (simSamples ! 5) = Continue 8 1"
  "simTurn 8 1 (simSamples ! 6) = Continue 8 2"
  "simTurn 8 2 (simSamples ! 7) = Return ''gggggggg''"
  by code_simp+

lemma sim_step:
  assumes "pollsTaken w = k" "k < 8" "now w = t" "int t < dl"
    and "simTurn p s (simSamples ! k) = Continue p' s'"
  shows "\<exists>w'. stabilizeLoop simEnv cliDefault rt dl p s w = stabilizeLoop simEnv cliDefault rt dl p' s' w'
              \<and> pollsTaken w' = k + 1 \<and> now w' = t + 2000"
proof -
  have "\<not> verbose cliDefault"
    by (simp add: cliDefault_def newChatGPT_def noOptions_def Let_def)
  from sim_body [OF assms(1,2) this, of p s] assms(5)
  obtain w' where b: "stabilizeBody simEnv cliDefault p s w = (Inr (Continue p' s'), w')"
    and n: "pollsTaken w' = k + 1" "now w' = now w + 2000"
    by auto
  from assms(3,4) have "int (now w) < dl" by simp
  from stabilizeLoop_continue [OF this b] n assms(3) show ?thesis
    by auto
qed

lemma sim_seven_polls:
  assumes "12000 < dl"
  shows "\<exists>w7. stabilizeLoop simEnv cliDefault rt dl 0 0 startWorld = stabilizeLoop simEnv cliDefault rt dl 8 2 w7
              \<and> pollsTaken w7 = 7 \<and> now w7 = 14000"
proof -
  have p0: "pollsTaken startWorld = 0" "now startWorld = 0"
    by (simp_all add: pollsTaken_def startWorld_def)
  from sim_step [of startWorld 0 0 dl 0 0 0 0 rt] assms p0 sim_turns
  obtain w1 where e1: "stabilizeLoop simEnv cliDefault rt dl 0 0 startWorld = stabilizeLoop simEnv cliDefault rt dl 0 0 w1"
    and p1: "pollsTaken w1 = 1" "now w1 = 2000"
    by auto
  from sim_step [of w1 1 2000 dl 0 0 5 0 rt] assms p1 sim_turns
  obtain w2 where e2: "stabilizeLoop simEnv cliDefault rt dl 0 0 w1 = stabilizeLoop simEnv cliDefault rt dl 5 0 w2"
    and p2: "pollsTaken w2 = 2" "now w2 = 4000"
    by auto
  from sim_step [of w2 2 4000 dl 5 0 5 1 rt] assms p2 sim_turns
  obtain w3 where e3: "stabilizeLoop simEnv cliDefault rt dl 5 0 w2 = stabilizeLoop simEnv cliDefault rt dl 5 1 w3"
    and p3: "pollsTaken w3 = 3" "now w3 = 6000"
    by auto
  from sim_step [of w3 3 6000 dl 5 1 5 2 rt] assms p3 sim_turns
  obtain w4 where e4: "stabilizeLoop simEnv cliDefault rt dl 5 1 w3 = stabilizeLoop simEnv cliDefault rt dl 5 2 w4"
    and p4: "pollsTaken w4 = 4" "now w4 = 8000"
    by auto
  from sim_step [of w4 4 8000 dl 5 2 8 0 rt] assms p4 sim_turns
  obtain w5 where e5: "stabilizeLoop simEnv cliDefault rt dl 5 2 w4 = stabilizeLoop simEnv cliDefault rt dl 8 0 w5"
    and p5: "pollsTaken w5 = 5" "now w5 = 10000"
    by auto
  from sim_step [of w5 5 10000 dl 8 0 8 1 rt] assms p5 sim_turns
  obtain w6 where e6: "stabilizeLoop simEnv cliDefault rt dl 8 0 w5 = stabilizeLoop simEnv cliDefault rt dl 8 1 w6"
    and p6: "pollsTaken w6 = 6" "now w6 = 12000"
    by auto
  from sim_step [of w6 6 12000 dl 8 1 8 2 rt] assms p6 sim_turns
  obtain w7 where e7: "stabilizeLoop simEnv cliDefault rt dl 8 1 w6 = stabilizeLoop simEnv cliDefault rt dl 8 2 w7"
    and p7: "pollsTaken w7 = 7" "now w7 = 14000"
    by auto
  show ?thesis
    using e1 e2 e3 e4 e5 e6 e7 p7 by auto
qed

lemma sim_run:
  "\<exists>w8. stabilizeLoop simEnv cliDefault rt 1800000 0 0 startWorld = (Inr ''gggggggg'', w8)
         \<and> pollsTaken w8 = 8 \<and> now w8 = 16000"
proof -
  have v: "\<not> verbose cliDefault"
    by (simp add: cliDefault_def newChatGPT_def noOptions_def Let_def)
  obtain w7 where e: "stabilizeLoop simEnv cliDefault rt 1800000 0 0 startWorld
                      = stabilizeLoop simEnv cliDefault rt 1800000 8 2 w7"
    and p: "pollsTaken w7 = 7" "now w7 = 14000"
    using sim_seven_polls [of 1800000 rt] by auto
  from sim_body [OF p(1) _ v, of 8 2] sim_turns(8)
  obtain w8 where b: "stabilizeBody simEnv cliDefault 8 2 w7 = (Inr (Return ''gggggggg''), w8)"
    and n: "pollsTaken w8 = 8" "now w8 = now w7 + 2000"
    by auto
  have "int (now w7) < 1800000" using p by simp
  from stabilizeLoop_return [OF this b] e n p show ?thesis
    by auto
qed

lemma sim_cut:
  "\<exists>w7. stabilizeLoop simEnv cliDefault rt 14000 0 0 startWorld = (Inl (timeoutError rt), w7)
         \<and> pollsTaken w7 = 7"
proof -
  obtain w7 where e: "stabilizeLoop simEnv cliDefault rt 14000 0 0 startWorld
                      = stabilizeLoop simEnv cliDefault rt 14000 8 2 w7"
    and p: "pollsTaken w7 = 7" "now w7 = 14000"
    using sim_seven_polls [of 14000 rt] by auto
  have "\<not> int (now w7) < 14000" using p by simp
  from stabilizeLoop_deadline [OF this] e p show ?thesis
    by auto
qed

text \<open>
  Claim C1, as the code has it. On the stream with trimmed lengths 0, 5, 5, 5, 8, 8, 8, 8,
  one sample per poll, the response is final when the count of unchanged observations
  reaches three, which takes four equal nonzero lengths in a row: at the eighth sample,
  of length 8. The text returned is the trimmed text of that sample (the copy affordance
  yields nothing here).
\<close>

theorem stabilization_finalizes_at_eighth_sample:
  "map (\<lambda>s. length (trim s)) simSamples = [0, 5, 5, 5, 8, 8, 8, 8]
   \<and> fst (stabilizeLoop simEnv cliDefault 1800000 1800000 0 0 startWorld) = Inr (trim (simSamples ! 7))
   \<and> pollsTaken (snd (stabilizeLoop simEnv cliDefault 1800000 1800000 0 0 startWorld)) = 8"
proof -
  have "map (\<lambda>s. length (trim s)) simSamples = [0, 5, 5, 5, 8, 8, 8, 8]"
    by code_simp
  moreover have "trim (simSamples ! 7) = ''gggggggg''"
    by code_simp
  ultimately show ?thesis
    using sim_run [of 1800000] by auto
qed

text \<open>
  The claim as stated fails: the run does not end at the seventh sample, and when the
  deadline leaves room for seven samples only, the loop throws the timeout error
  instead of returning.
\<close>

theorem stabilization_seventh_sample_counterexample:
  "pollsTaken (snd (stabilizeLoop simEnv cliDefault 1800000 1800000 0 0 startWorld)) \<noteq> 7
   \<and> fst (stabilizeLoop simEnv cliDefault 1800000 14000 0 0 startWorld) = Inl (timeoutError 1800000)
   \<and> pollsTaken (snd (stabilizeLoop simEnv cliDefault 1800000 14000 0 0 startWorld)) = 7"
  using sim_run [of 1800000] sim_cut [of 1800000] by auto

section \<open>Errors and the clock through the program\<close>

lemma andThenE:
  assumes "andThen m f w = (r, w')"
  obtains (raised) e where "m w = (Inl e, w')" "r = Inl e"
        | (went) x w1 where "m w = (Inr x, w1)" "f x w1 = (r, w')"
  using assms by (auto simp: andThen_def split: prod.splits sum.splits)

lemma raisesOnlyD: "raisesOnly P m \<Longrightarrow> m w = (Inl e, w') \<Longrightarrow> P e"
  by (auto simp: raisesOnly_def)

lemma raisesOnly_weaken: "raisesOnly P m \<Longrightarrow> (\<And>e. P e \<Longrightarrow> Q e) \<Longrightarrow> raisesOnly Q m"
  by (auto simp: raisesOnly_def)

lemma forwardD: "forward m \<Longrightarrow> m w = (r, w') \<Longrightarrow> now w \<le> now w'"
  by (auto simp: forward_def)

lemma raisesOnly_ret [intro!, simp]: "raisesOnly P (ret x)"
  and forward_ret [intro!, simp]: "forward (ret x)"
  by (simp_all add: raisesOnly_def forward_def ret_def)

lemma raisesOnly_observe [intro!, simp]: "raisesOnly P (observe f)"
  and forward_observe [intro!, simp]: "forward (observe f)"
  by (simp_all add: raisesOnly_def forward_def observe_def)

lemma raisesOnly_raise [simp]: "raisesOnly P (raise e) = P e"
  and forward_raise [intro!, simp]: "forward (raise e)"
  by (simp_all add: raisesOnly_def forward_def raise_def)

lemma raisesOnly_console [intro!, simp]: "raisesOnly P (console l m)"
  and forward_console [intro!, simp]: "forward (console l m)"
  by (auto simp: raisesOnly_def forward_def console_def)

lemma raisesOnly_log [intro!, simp]: "raisesOnly P (log c l m)"
  and forward_log [intro!, simp]: "forward (log c l m)"
  by (simp_all add: log_def)

lemma raisesOnly_debug [intro!, simp]: "raisesOnly P (debug c m)"
  and forward_debug [intro!, simp]: "forward (debug c m)"
  by (simp_all add: debug_def)

lemma raisesOnly_infallible [intro!, simp]: "raisesOnly P (infallible env a)"
  and forward_infallible [intro!, simp]: "forward (infallible env a)"
  by (auto simp: raisesOnly_def forward_def infallible_def advance_def)

lemma raisesOnly_perform [intro!, simp]: "raisesOnly (driverFault env) (perform env a)"
  and forward_perform [intro!, simp]: "forward (perform env a)"
  by (auto simp: raisesOnly_def forward_def perform_def driverFault_def isDriverError_def
        reliable_def advance_def split: option.splits)

lemma raisesOnly_perform_driver [intro!, simp]: "raisesOnly isDriverError (perform env a)"
  by (rule raisesOnly_weaken [OF raisesOnly_perform]) (simp add: driverFault_def)

lemma raisesOnly_andThen [intro!]:
  "raisesOnly P m \<Longrightarrow> (\<And>x. raisesOnly P (f x)) \<Longrightarrow> raisesOnly P (andThen m f)"
  by (fastforce simp: raisesOnly_def andThen_def split: prod.splits sum.splits)

lemma forward_andThen [intro!]:
  "forward m \<Longrightarrow> (\<And>x. forward (f x)) \<Longrightarrow> forward (andThen m f)"
  unfolding forward_def andThen_def
  by (auto split: prod.splits sum.splits) (meson order_trans)+

lemma raisesOnly_catch [intro!]:
  "(\<And>e. raisesOnly P (h e)) \<Longrightarrow> raisesOnly P (catch m h)"
  by (fastforce simp: raisesOnly_def catch_def split: prod.splits sum.splits)

lemma forward_catch [intro!]:
  "forward m \<Longrightarrow> (\<And>e. forward (h e)) \<Longrightarrow> forward (catch m h)"
  unfolding forward_def catch_def
  by (auto split: prod.splits sum.splits) (meson order_trans)+

lemma raisesOnly_steps [intro!]:
  "(\<And>m. m \<in> set ms \<Longrightarrow> raisesOnly P m) \<Longrightarrow> raisesOnly P (steps ms)"
  by (induction ms) auto

lemma forward_steps [intro!]:
  "(\<And>m. m \<in> set ms \<Longrightarrow> forward m) \<Longrightarrow> forward (steps ms)"
  by (induction ms) auto

lemma raisesOnly_textContent [intro!, simp]: "raisesOnly (driverFault env) (textContent env)"
  and forward_textContent [intro!, simp]: "forward (textContent env)"
  by (auto simp: textContent_def)

lemma raisesOnly_isModelAlreadySelected [intro!, simp]: "raisesOnly P (isModelAlreadySelected env d)"
  and forward_isModelAlreadySelected [intro!, simp]: "forward (isModelAlreadySelected env d)"
  by (auto simp: isModelAlreadySelected_def split: option.splits)

lemma raisesOnly_tryComposerSelectors [intro!, simp]: "raisesOnly P (tryComposerSelectors env c sels)"
  by (induction sels) auto

lemma forward_tryComposerSelectors [intro!, simp]: "forward (tryComposerSelectors env c sels)"
  by (induction sels) auto

lemma raisesOnly_ensureComposerReady [intro!, simp]: "raisesOnly P (ensureComposerReady env c)"
  and forward_ensureComposerReady [intro!, simp]: "forward (ensureComposerReady env c)"
  by (auto simp: ensureComposerReady_def)

lemma raisesOnly_openPicker [intro!, simp]: "raisesOnly P (openPicker env c)"
  and forward_openPicker [intro!, simp]: "forward (openPicker env c)"
  by (auto simp: openPicker_def)

lemma raisesOnly_applyModelSelection [intro!, simp]:
  "raisesOnly (driverFault env) (applyModelSelection env d)"
  and forward_applyModelSelection [intro!, simp]: "forward (applyModelSelection env d)"
  by (auto simp: applyModelSelection_def)

lemma raisesOnly_selectModel:
  "page c \<noteq> None \<Longrightarrow> raisesOnly (driverFault env) (selectModel env c name)"
  by (auto simp: selectModel_def Let_def split: option.splits)

lemma forward_selectModel [intro!, simp]: "forward (selectModel env c name)"
  by (auto simp: selectModel_def Let_def split: option.splits)

lemma raisesOnly_countAssistant [intro!, simp]: "raisesOnly (driverFault env) (countAssistant env)"
  and forward_countAssistant [intro!, simp]: "forward (countAssistant env)"
  by (auto simp: countAssistant_def)

lemma raisesOnly_allAssistant [intro!, simp]: "raisesOnly (driverFault env) (allAssistant env)"
  and forward_allAssistant [intro!, simp]: "forward (allAssistant env)"
  by (auto simp: allAssistant_def)

lemma raisesOnly_innerText [intro!, simp]: "raisesOnly isDriverError (innerText env i)"
  by (auto simp: innerText_def raisesOnly_def andThen_def perform_def isDriverError_def
        split: option.splits if_splits)

lemma raisesOnly_updateStability [intro!, simp]: "raisesOnly P (updateStability c p s n)"
  by (auto simp: updateStability_def)

lemma raisesOnly_notReadyNotice [intro!, simp]: "raisesOnly P (notReadyNotice c)"
  by (auto simp: notReadyNotice_def)

lemma raisesOnly_thinkingCheck [intro!, simp]: "raisesOnly (driverFault env) (thinkingCheck env c)"
  and forward_thinkingCheck [intro!, simp]: "forward (thinkingCheck env c)"
  by (auto simp: thinkingCheck_def)

lemma driverFault_isDriverError: "driverFault env e \<Longrightarrow> isDriverError e"
  by (simp add: driverFault_def)

section \<open>Trimming\<close>

lemma trim_cases: "trim s = [] \<or> (\<not> isWhiteSpace (hd (trim s)) \<and> \<not> isWhiteSpace (last (trim s)))"
proof (cases "trim s = []")
  case True
  then show ?thesis by simp
next
  case False
  define u where "u = dropWhile isWhiteSpace s"
  define v where "v = dropWhile isWhiteSpace (rev u)"
  have t: "trim s = rev v"
    by (simp add: trim_def trimStart_def trimEnd_def u_def v_def)
  with False have v: "v \<noteq> []" by simp
  then have ru: "rev u \<noteq> []" by (auto simp: v_def)
  then have u: "u \<noteq> []" by simp
  have "\<not> isWhiteSpace (hd v)"
    using v hd_dropWhile [of isWhiteSpace "rev u"] by (simp add: v_def)
  then have l: "\<not> isWhiteSpace (last (trim s))"
    using v by (simp add: t last_rev)
  obtain ws where "rev u = ws @ v"
    using takeWhile_dropWhile_id [of isWhiteSpace "rev u"] by (metis v_def)
  then have "last (rev u) = last v"
    using v by simp
  then have "hd (trim s) = hd u"
    using v u by (simp add: t hd_rev last_rev)
  moreover have "\<not> isWhiteSpace (hd u)"
    using u hd_dropWhile [of isWhiteSpace s] by (simp add: u_def)
  ultimately show ?thesis
    using l by simp
qed

lemma trim_unchanged:
  assumes "s = [] \<or> (\<not> isWhiteSpace (hd s) \<and> \<not> isWhiteSpace (last s))"
  shows "trim s = s"
proof (cases "s = []")
  case True
  then show ?thesis by (simp add: trim_def trimStart_def trimEnd_def)
next
  case False
  with assms have h: "\<not> isWhiteSpace (hd s)" and l: "\<not> isWhiteSpace (last s)" by simp_all
  have 1: "dropWhile isWhiteSpace s = s"
    using h by (simp add: dropWhile_eq_self_iff)
  have "hd (rev s) = last s"
    using False by (simp add: hd_rev)
  then have 2: "dropWhile isWhiteSpace (rev s) = rev s"
    using l by (simp add: dropWhile_eq_self_iff)
  show ?thesis
    by (simp add: trim_def trimStart_def trimEnd_def 1 2)
qed

lemma trim_idem [simp]: "trim (trim s) = trim s"
  using trim_cases [of s] by (rule trim_unchanged)

section \<open>The outcome of the stabilization phase\<close>

lemma finalizeResponse_text:
  assumes "finalizeResponse env (trim t) w = (r, w')" "trim t \<noteq> []"
  shows "\<exists>x. r = Inr x \<and> trim x \<noteq> []"
  using assms
  by (auto simp: finalizeResponse_def copyAssistantResponse_def andThen_def infallible_def
        observe_def ret_def split: option.splits if_splits)

lemma stabilizeBody_good:
  assumes "stabilizeBody env c p s w = (r, w')"
  shows "goodTurn r"
proof -
  from assms show ?thesis
    unfolding stabilizeBody_def
  proof (cases rule: andThenE)
    case (raised e)
    then show ?thesis
      using raisesOnlyD [OF raisesOnly_perform_driver] by (auto simp: goodTurn_def)
  next
    case (went x w1)
    from went(2) show ?thesis
    proof (cases rule: andThenE)
      case (raised e)
      then show ?thesis
        using raisesOnlyD [OF raisesOnly_allAssistant] by (auto simp: goodTurn_def driverFault_def)
    next
      case inner: (went messages w2)
      show ?thesis
      proof (cases "messages = 0")
        case True
        with inner(2) show ?thesis
          by (auto simp: andThen_def debug_def console_def ret_def goodTurn_def split: if_splits)
      next
        case False
        with inner(2) have "andThen (innerText env (messages - 1)) (\<lambda>currentText.
           let trimmedText = trim currentText;
               currentLength = length trimmedText
           in if currentLength = 0
              then andThen (notReadyNotice c) (\<lambda>_. ret (Continue 0 0))
              else
                andThen (updateStability c p s currentLength)
                  (\<lambda>(previousLength', stableCount').
                     if stableCount' \<ge> requiredStableChecks
                     then andThen (finalizeResponse env trimmedText) (\<lambda>text. ret (Return text))
                     else ret (Continue previousLength' stableCount'))) w2 = (r, w')"
          by simp
        then show ?thesis
        proof (cases rule: andThenE)
          case (raised e)
          then show ?thesis
            using raisesOnlyD [OF raisesOnly_innerText] by (auto simp: goodTurn_def)
        next
          case got: (went currentText w3)
          show ?thesis
          proof (cases "trim currentText = []")
            case True
            with got(2) show ?thesis
              by (auto simp: andThen_def notReadyNotice_def log_def console_def ret_def goodTurn_def
                    split: if_splits)
          next
            case nonempty: False
            with got(2) have "andThen (updateStability c p s (length (trim currentText)))
                  (\<lambda>(previousLength', stableCount').
                     if stableCount' \<ge> requiredStableChecks
                     then andThen (finalizeResponse env (trim currentText)) (\<lambda>text. ret (Return text))
                     else ret (Continue previousLength' stableCount')) w3 = (r, w')"
              by (simp add: Let_def)
            then show ?thesis
            proof (cases rule: andThenE)
              case (raised e)
              then show ?thesis
                using raisesOnlyD [OF raisesOnly_updateStability [of "\<lambda>_. False"]] by blast
            next
              case upd: (went ps w4)
              obtain p' s' where ps: "ps = (p', s')" by (cases ps)
              show ?thesis
              proof (cases "s' \<ge> requiredStableChecks")
                case True
                with upd(2) ps have "andThen (finalizeResponse env (trim currentText))
                                       (\<lambda>text. ret (Return text)) w4 = (r, w')"
                  by simp
                then show ?thesis
                proof (cases rule: andThenE)
                  case (raised e)
                  then show ?thesis
                    using finalizeResponse_text [OF _ nonempty] by blast
                next
                  case fin: (went x w5)
                  from finalizeResponse_text [OF fin(1) nonempty] have "trim x \<noteq> []"
                    by simp
                  with fin(2) show ?thesis
                    by (auto simp: ret_def goodTurn_def)
                qed
              next
                case False
                with upd(2) ps show ?thesis
                  by (auto simp: ret_def goodTurn_def)
              qed
            qed
          qed
        qed
      qed
    qed
  qed
qed

lemma stabilizeLoop_good:
  "stabilizeLoop env c rt dl p s w = (r, w') \<Longrightarrow> goodOutcome rt r"
proof (induction env c rt dl p s w arbitrary: r w' rule: stabilizeLoop.induct)
  case (1 env c rt dl p s w)
  show ?case
  proof (cases "int (now w) < dl")
    case False
    with "1.prems" show ?thesis
      by (subst (asm) stabilizeLoop.simps) (auto simp: goodOutcome_def)
  next
    case True
    obtain b wb where b: "stabilizeBody env c p s w = (b, wb)"
      by (cases "stabilizeBody env c p s w")
    have g: "goodTurn b"
      using b by (rule stabilizeBody_good)
    show ?thesis
    proof (cases b)
      case (Inl e)
      with "1.prems" True b g show ?thesis
        by (subst (asm) stabilizeLoop.simps) (auto simp: goodOutcome_def goodTurn_def)
    next
      case (Inr t)
      show ?thesis
      proof (cases t)
        case (Return x)
        with "1.prems" True b g Inr show ?thesis
          by (subst (asm) stabilizeLoop.simps) (auto simp: goodOutcome_def goodTurn_def)
      next
        case (Continue p' s')
        with "1.prems" True b Inr have "stabilizeLoop env c rt dl p' s' wb = (r, w')"
          by (subst (asm) stabilizeLoop.simps) simp
        with "1.IH" [OF True b [symmetric]] Inr Continue show ?thesis
          by simp
      qed
    qed
  qed
qed

section \<open>The arrival phase\<close>

lemma arrivalLoop_raises:
  "arrivalLoop env c dl n w = (Inl e, w') \<Longrightarrow> driverFault env e"
proof (induction env c dl n w arbitrary: e w' rule: arrivalLoop.induct)
  case (1 env c dl n w)
  show ?case
  proof (cases "int (now w) < dl")
    case False
    with "1.prems" show ?thesis
      by (subst (asm) arrivalLoop.simps) simp
  next
    case True
    obtain r1 w1 where r1: "countAssistant env w = (r1, w1)" by (cases "countAssistant env w")
    obtain r2 w2 where r2: "thinkingCheck env c w1 = (r2, w2)" by (cases "thinkingCheck env c w1")
    obtain r3 w3 where r3: "perform env (WaitForTimeout pollIntervalMs) w2 = (r3, w3)"
      by (cases "perform env (WaitForTimeout pollIntervalMs) w2")
    note f = raisesOnlyD [OF raisesOnly_countAssistant] raisesOnlyD [OF raisesOnly_thinkingCheck]
      raisesOnlyD [OF raisesOnly_perform] raisesOnlyD [OF raisesOnly_debug [of "\<lambda>_. False"]]
    show ?thesis
    proof (cases r1)
      case (Inl e1)
      with "1.prems" True r1 f(1) [of env w e1 w1] show ?thesis
        by (subst (asm) arrivalLoop.simps) auto
    next
      case (Inr currentCount)
      show ?thesis
      proof (cases "currentCount > n")
        case True
        with "1.prems" \<open>int (now w) < dl\<close> r1 Inr show ?thesis
          by (subst (asm) arrivalLoop.simps) (auto dest!: f(4))
      next
        case False
        show ?thesis
        proof (cases r2)
          case (Inl e2)
          with "1.prems" True r1 r2 Inr False f(2) [of env c w1 e2 w2] show ?thesis
            by (subst (asm) arrivalLoop.simps) auto
        next
          case u: (Inr u)
          show ?thesis
          proof (cases r3)
            case (Inl e3)
            with "1.prems" True r1 r2 r3 Inr False u f(3) [of env _ w2 e3 w3] show ?thesis
              by (subst (asm) arrivalLoop.simps) auto
          next
            case v: (Inr v)
            with "1.prems" True r1 r2 r3 Inr False u
            have "arrivalLoop env c dl n w3 = (Inl e, w')"
              by (subst (asm) arrivalLoop.simps) auto
            with "1.IH" [OF True r1 [symmetric] Inr _ r2 [symmetric] u r3 [symmetric] v] False
            show ?thesis by simp
          qed
        qed
      qed
    qed
  qed
qed

lemma arrivalLoop_forward:
  "arrivalLoop env c dl n w = (r, w') \<Longrightarrow> now w \<le> now w'"
proof (induction env c dl n w arbitrary: r w' rule: arrivalLoop.induct)
  case (1 env c dl n w)
  show ?case
  proof (cases "int (now w) < dl")
    case False
    with "1.prems" show ?thesis
      by (subst (asm) arrivalLoop.simps) simp
  next
    case True
    obtain r1 w1 where r1: "countAssistant env w = (r1, w1)" by (cases "countAssistant env w")
    obtain r2 w2 where r2: "thinkingCheck env c w1 = (r2, w2)" by (cases "thinkingCheck env c w1")
    obtain r3 w3 where r3: "perform env (WaitForTimeout pollIntervalMs) w2 = (r3, w3)"
      by (cases "perform env (WaitForTimeout pollIntervalMs) w2")
    have n1: "now w \<le> now w1" using r1 by (rule countAssistant_now)
    have n2: "now w1 \<le> now w2" using r2 by (rule thinkingCheck_now)
    have n3: "now w2 \<le> now w3" using r3 by (rule perform_now)
    show ?thesis
    proof (cases r1)
      case (Inl e1)
      with "1.prems" True r1 n1 show ?thesis
        by (subst (asm) arrivalLoop.simps) auto
    next
      case (Inr currentCount)
      show ?thesis
      proof (cases "currentCount > n")
        case True
        with "1.prems" \<open>int (now w) < dl\<close> r1 Inr n1 show ?thesis
          by (subst (asm) arrivalLoop.simps) (auto dest!: debug_now)
      next
        case False
        show ?thesis
        proof (cases r2)
          case (Inl e2)
          with "1.prems" True r1 r2 Inr False n1 n2 show ?thesis
            by (subst (asm) arrivalLoop.simps) auto
        next
          case u: (Inr u)
          show ?thesis
          proof (cases r3)
            case (Inl e3)
            with "1.prems" True r1 r2 r3 Inr False u n1 n2 n3 show ?thesis
              by (subst (asm) arrivalLoop.simps) auto
          next
            case v: (Inr v)
            with "1.prems" True r1 r2 r3 Inr False u
            have "arrivalLoop env c dl n w3 = (r, w')"
              by (subst (asm) arrivalLoop.simps) auto
            with "1.IH" [OF True r1 [symmetric] Inr _ r2 [symmetric] u r3 [symmetric] v] False
            have "now w3 \<le> now w'" by simp
            with n1 n2 n3 show ?thesis by simp
          qed
        qed
      qed
    qed
  qed
qed









lemma awaitResponse_good:
  assumes "awaitResponse env c n w = (r, w')"
  shows "goodOutcome (getResponseTimeout c) r"
proof -
  let ?dl = "int (now w) + getResponseTimeout c"
  from assms have "andThen (arrivalLoop env c ?dl n) (\<lambda>_.
             andThen (countAssistant env) (\<lambda>confirmedCount.
               if confirmedCount \<le> n then raise (timeoutError (getResponseTimeout c))
               else stabilizeLoop env c (getResponseTimeout c) ?dl 0 0)) w = (r, w')"
    by (simp add: awaitResponse_def Let_def)
  then show ?thesis
  proof (cases rule: andThenE)
    case (raised e)
    then show ?thesis
      using arrivalLoop_raises [of env c ?dl n w e w'] by (simp add: goodOutcome_def driverFault_def)
  next
    case (went x w1)
    from went(2) show ?thesis
    proof (cases rule: andThenE)
      case (raised e)
      then show ?thesis
        using raisesOnlyD [OF raisesOnly_countAssistant] by (auto simp: goodOutcome_def driverFault_def)
    next
      case inner: (went confirmedCount w2)
      then show ?thesis
        using stabilizeLoop_good [of env c "getResponseTimeout c" ?dl 0 0 w2 r w']
        by (auto simp: raise_def goodOutcome_def split: if_splits)
    qed
  qed
qed

lemma query_cases:
  assumes "query env c prompt w = (r, w')" "page c \<noteq> None"
  obtains (fault) e where "r = Inl e" "driverFault env e"
        | (submitted) wn ws where "now w \<le> now ws"
            "awaitResponse env c (length (assistantTexts env wn)) ws = (r, w')"
proof -
  note sel = raisesOnlyD [OF raisesOnly_selectModel [OF assms(2)]] forwardD [OF forward_selectModel]
  from assms have "andThen (selectModel env c (model c)) (\<lambda>_.
        andThen (log c Info ''Submitting prompt...'') (\<lambda>_.
        andThen (perform env (WaitForSelector inputSelector 10000)) (\<lambda>_.
        andThen (countAssistant env) (\<lambda>initialMessages.
        andThen
          (steps [debug c (''Initial assistant messages: '' @ showNat initialMessages),
                  perform env (Fill inputSelector prompt),
                  perform env (WaitForTimeout 500),
                  perform env (Press ''keyboard'' ''Enter''),
                  log c Info ''Waiting for response...''])
          (\<lambda>_. awaitResponse env c initialMessages))))) w = (r, w')"
    by (simp add: query_def)
  then show ?thesis
  proof (cases rule: andThenE)
    case (raised e)
    then show ?thesis using sel(1) fault by blast
  next
    case 1: (went x1 w1)
    have n1: "now w \<le> now w1" using 1(1) by (rule sel(2))
    from 1(2) show ?thesis
    proof (cases rule: andThenE)
      case (raised e)
      then show ?thesis using raisesOnlyD [OF raisesOnly_log [of "driverFault env"]] fault by blast
    next
      case 2: (went x2 w2)
      have n2: "now w1 \<le> now w2" using 2(1) forwardD [OF forward_log] by blast
      from 2(2) show ?thesis
      proof (cases rule: andThenE)
        case (raised e)
        then show ?thesis using raisesOnlyD [OF raisesOnly_perform] fault by blast
      next
        case 3: (went x3 w3)
        have n3: "now w2 \<le> now w3" using 3(1) by (rule perform_now)
        from 3(2) show ?thesis
        proof (cases rule: andThenE)
          case (raised e)
          then show ?thesis using raisesOnlyD [OF raisesOnly_countAssistant] fault by blast
        next
          case 4: (went initialMessages w4)
          have n4: "now w3 \<le> now w4" using 4(1) by (rule countAssistant_now)
          have i: "\<exists>wn. initialMessages = length (assistantTexts env wn)"
            using 4(1)
            by (auto simp: countAssistant_def andThen_def observe_def split: prod.splits sum.splits)
          let ?s = "steps [debug c (''Initial assistant messages: '' @ showNat initialMessages),
                  perform env (Fill inputSelector prompt),
                  perform env (WaitForTimeout 500),
                  perform env (Press ''keyboard'' ''Enter''),
                  log c Info ''Waiting for response...'']"
          have rs: "raisesOnly (driverFault env) ?s" by auto
          have fs: "forward ?s" by auto
          from 4(2) show ?thesis
          proof (cases rule: andThenE)
            case (raised e)
            then show ?thesis using raisesOnlyD [OF rs] fault by blast
          next
            case 5: (went x5 w5)
            have n5: "now w4 \<le> now w5" using 5(1) forwardD [OF fs] by blast
            from n1 n2 n3 n4 n5 have "now w \<le> now w5" by simp
            with 5(2) i submitted show ?thesis by blast
          qed
        qed
      qed
    qed
  qed
qed

section \<open>The query as a whole\<close>

lemma n: "\<not> strIncludes ''Response timeout after 1800000ms'' ''60000''" by code_simp

lemma stabilizeBody_empty_text_resets:
  assumes "perform env (WaitForTimeout 2000) w = (Inr (), w1)"
    and "allAssistant env w1 = (Inr (Suc k), w2)"
    and "innerText env k w2 = (Inr currentText, w3)"
    and "trim currentText = []"
  shows "fst (stabilizeBody env c previousLength stableCount w) = Inr (Continue 0 0)"
  using assms
  by (simp add: stabilizeBody_def andThen_def Let_def notReadyNotice_def ret_def log_def console_def)


text \<open>
  Claim C9. Whatever the page shows during the stabilization phase, a string returned by
  \<^verbatim>\<open>query\<close> is not empty after trimming, and \<^verbatim>\<open>query\<close> never throws
  ``Empty response received'': an observation whose trimmed text is empty sets the count
  back to zero (\<open>stabilizeBody_empty_text_resets\<close>) and is never final. The errors that
  remain are the timeout error, an exception of the driver itself, and the error of an
  instance that was not initialized.
\<close>

theorem query_returns_text_or_times_out:
  "case fst (query env c prompt w) of
     Inr text \<Rightarrow> trim text \<noteq> []
   | Inl e \<Rightarrow> e \<noteq> Error ''Empty response received''
              \<and> (e = timeoutError (getResponseTimeout c) \<or> isDriverError e
                  \<or> e = Error ''Browser not initialized'')"
proof (cases "page c = None")
  case True
  then show ?thesis
    by (simp add: query_def raise_def)
next
  case False
  obtain r w' where q: "query env c prompt w = (r, w')"
    by (cases "query env c prompt w")
  from q False show ?thesis
  proof (cases rule: query_cases)
    case (fault e)
    with q show ?thesis
      by (auto simp: driverFault_def isDriverError_def split: error.splits)
  next
    case (submitted wn ws)
    from awaitResponse_good [OF submitted(2)] q show ?thesis
      by (auto simp: goodOutcome_def timeoutError_def isDriverError_def split: sum.splits error.splits)
  qed
qed






section \<open>Unrecognized model names\<close>

lemma recognized_resolve:
  "\<forall>n \<in> set recognizedNames.
     buildModelDefinitions (case aliasMap n of Some a \<Rightarrow> a | None \<Rightarrow> n) \<noteq> None"
  by code_simp

lemma unrecognized_resolve:
  assumes "normalizeName name \<notin> set recognizedNames"
  shows "resolveModelDefinition name = None"
proof -
  have "aliasMap (normalizeName name) = None"
    using assms by (simp add: aliasMap_def recognizedNames_def map_of_eq_None_iff)
  moreover have "buildModelDefinitions (normalizeName name) = None"
    using assms by (simp add: buildModelDefinitions_def recognizedNames_def map_of_eq_None_iff)
  ultimately show ?thesis
    by (simp add: resolveModelDefinition_def)
qed

lemma recognized_resolves:
  "normalizeName name \<in> set recognizedNames \<Longrightarrow> resolveModelDefinition name \<noteq> None"
  using recognized_resolve by (auto simp: resolveModelDefinition_def Let_def)

text \<open>
  Claim C7. A name is unrecognized when its normalized form is neither a catalog key nor
  an alias (every other name resolves, \<open>recognized_resolves\<close>). For such a name
  \<^verbatim>\<open>resolveModelDefinition\<close> returns null, and \<^verbatim>\<open>selectModel\<close> on an initialized
  instance returns normally after printing the warning: the world afterwards is the world
  before with the console lines added, so no driver call was made and the picker was not
  touched.
\<close>

theorem unrecognized_model_is_skipped:
  assumes "normalizeName name \<notin> set recognizedNames" "page c \<noteq> None"
  shows \<open>resolveModelDefinition name = None
         \<and> selectModel env c name w =
             (Inr (),
              w\<lparr>trace := trace w
                   @ (if verbose c then [ConsoleLog Info (''Selecting model: '' @ name)] else [])
                   @ [ConsoleLog Warn (''Model "'' @ name @ ''" is not recognized; skipping model switch'')]\<rparr>)\<close>
  using assms unrecognized_resolve [OF assms(1)]
  by (auto simp: selectModel_def andThen_def log_def console_def ret_def)

theorem unrecognized_model_is_skipped_witness:
  \<open>normalizeName ''o1-pro'' \<notin> set recognizedNames \<and> page cliDefault \<noteq> None
   \<and> resolveModelDefinition ''o1-pro'' = None
   \<and> selectModel idleEnv cliDefault ''o1-pro'' startWorld =
       (Inr (), \<lparr>now = 0, trace = [ConsoleLog Warn ''Model "o1-pro" is not recognized; skipping model switch'']\<rparr>)\<close>
proof -
  have a: "normalizeName ''o1-pro'' \<notin> set recognizedNames" by code_simp
  have b: "page cliDefault \<noteq> None" by (simp add: cliDefault_def)
  have c: "\<not> verbose cliDefault" by (simp add: cliDefault_def newChatGPT_def noOptions_def Let_def)
  from unrecognized_model_is_skipped [OF a b, of idleEnv startWorld] a b c show ?thesis
    by (simp add: startWorld_def)
qed

section \<open>Login\<close>

lemma keepsD: "keeps f m \<Longrightarrow> m w = (r, w') \<Longrightarrow> f w' = f w"
  by (auto simp: keeps_def)

lemma returnsOnlyD: "returnsOnly Q m \<Longrightarrow> m w = (Inr x, w') \<Longrightarrow> Q x"
  by (auto simp: returnsOnly_def)

lemma keeps_ret [intro!, simp]: "keeps f (ret x)"
  and keeps_observe [intro!, simp]: "keeps f (observe g)"
  and keeps_raise [intro!, simp]: "keeps f (raise e)"
  by (simp_all add: keeps_def ret_def observe_def raise_def)

lemma keeps_andThen [intro!]:
  "keeps f m \<Longrightarrow> (\<And>x. keeps f (g x)) \<Longrightarrow> keeps f (andThen m g)"
  unfolding keeps_def andThen_def
  by (auto split: prod.splits sum.splits)

lemma keeps_catch [intro!]:
  "keeps f m \<Longrightarrow> (\<And>e. keeps f (h e)) \<Longrightarrow> keeps f (catch m h)"
  unfolding keeps_def catch_def
  by (auto split: prod.splits sum.splits)

lemma keeps_steps [intro!]:
  "(\<And>m. m \<in> set ms \<Longrightarrow> keeps f m) \<Longrightarrow> keeps f (steps ms)"
  by (induction ms) auto

lemma keeps_console [intro!, simp]:
  "keeps (\<lambda>w. filter P (trace w)) (console l m) = (\<not> P (ConsoleLog l m))"
  by (auto simp: keeps_def console_def)

lemma keeps_perform [simp]:
  "keeps (\<lambda>w. filter P (trace w)) (perform env a) = (\<not> P a)"
  by (auto simp: keeps_def perform_def advance_def split: option.splits)

lemma keeps_infallible [simp]:
  "keeps (\<lambda>w. filter P (trace w)) (infallible env a) = (\<not> P a)"
  by (auto simp: keeps_def infallible_def advance_def)

lemma keeps_log [intro!, simp]:
  "\<not> P (ConsoleLog l m) \<Longrightarrow> keeps (\<lambda>w. filter P (trace w)) (log c l m)"
  and keeps_debug [intro!, simp]:
  "\<not> P (ConsoleLog Debug m) \<Longrightarrow> keeps (\<lambda>w. filter P (trace w)) (debug c m)"
  by (simp_all add: log_def debug_def)

lemma isLandingCall_simps [simp]:
  "\<not> isLandingCall (ConsoleLog l m)" "\<not> isLandingCall (ExecSync command)"
  by (simp_all add: isLandingCall_def)

lemma keeps_execSync [intro!, simp]:
  "\<not> P (ExecSync command) \<Longrightarrow> keeps (\<lambda>w. filter P (trace w)) (execSync env command)"
  by (auto simp: execSync_def)

lemma keeps_getCredentials:
  assumes "\<And>command. \<not> P (ExecSync command)"
  shows "keeps (\<lambda>w. filter P (trace w)) (getCredentials env)"
  using assms by (auto simp: getCredentials_def Let_def)


text \<open>
  Claim C10. \<^verbatim>\<open>loginInteractive\<close> asks the credential provider first. When
  \<^verbatim>\<open>getCredentials\<close> throws, the login throws too (the same error, or the error of an
  instance that was not initialized), and the trace holds no load of the landing page
  and no session probe beyond those it held before: the page is never asked, whatever it
  would have shown.
\<close>

theorem login_fails_without_credentials:
  assumes "fst (getCredentials env w) = Inl e"
  shows "fst (loginInteractive env c w)
           = Inl (if page c = None then Error ''Browser not initialized'' else e)
         \<and> filter isLandingCall (trace (snd (loginInteractive env c w))) = filter isLandingCall (trace w)"
proof (cases "page c = None")
  case True
  then show ?thesis
    by (simp add: loginInteractive_def raise_def)
next
  case False
  obtain w1 where g: "getCredentials env w = (Inl e, w1)"
    using assms by (cases "getCredentials env w") simp
  have "filter isLandingCall (trace w1) = filter isLandingCall (trace w)"
    using keepsD [OF keeps_getCredentials g] by simp
  with False g show ?thesis
    by (auto simp: loginInteractive_def andThen_def)
qed

lemma signedOut_getCredentials:
  "fst (getCredentials signedOutEnv startWorld) = Inl signedOutError"
  by (simp add: getCredentials_def envOr_def signedOutEnv_def idleEnv_def Let_def catch_def
        andThen_def execSync_def perform_def raise_def signedOutError_def errorString_def)

theorem login_fails_without_credentials_witness:
  "fst (getCredentials signedOutEnv startWorld) = Inl signedOutError
   \<and> sessionPayload signedOutEnv startWorld
   \<and> page cliDefault \<noteq> None
   \<and> fst (loginInteractive signedOutEnv cliDefault startWorld) = Inl signedOutError
   \<and> filter isLandingCall (trace (snd (loginInteractive signedOutEnv cliDefault startWorld))) = []"
proof -
  have p: "page cliDefault \<noteq> None" by (simp add: cliDefault_def)
  have s: "sessionPayload signedOutEnv startWorld" by (simp add: signedOutEnv_def)
  from login_fails_without_credentials [OF signedOut_getCredentials, of cliDefault] p s
    signedOut_getCredentials
  show ?thesis
    by (simp add: startWorld_def)
qed

lemma never_raises:
  assumes "raisesOnly (\<lambda>_. False) m"
  obtains x w' where "m w = (Inr x, w')"
proof (cases "m w")
  case (Pair r w')
  with assms that show ?thesis
    by (cases r) (auto simp: raisesOnly_def)
qed

lemma reliable_never:
  "reliable env \<Longrightarrow> raisesOnly (driverFault env) m \<Longrightarrow> raisesOnly (\<lambda>_. False) m"
  by (auto simp: raisesOnly_def driverFault_def)

lemma raisesOnly_never_catch: "raisesOnly (\<lambda>_. False) m \<Longrightarrow> raisesOnly P (catch m h)"
  by (auto simp: raisesOnly_def catch_def split: prod.splits sum.splits)

lemma raisesOnly_andThen_returns:
  "raisesOnly P m \<Longrightarrow> returnsOnly Q m \<Longrightarrow> (\<And>x. Q x \<Longrightarrow> raisesOnly P (f x))
     \<Longrightarrow> raisesOnly P (andThen m f)"
  unfolding raisesOnly_def returnsOnly_def andThen_def
  by (auto split: prod.splits sum.splits) blast+

lemma returnsOnly_execSync: "returnsOnly (\<lambda>out. \<exists>w. out = stdout env w) (execSync env command)"
  by (auto simp: returnsOnly_def execSync_def andThen_def observe_def split: prod.splits sum.splits)

lemma raisesOnly_execSync [intro!, simp]: "raisesOnly (driverFault env) (execSync env command)"
  by (auto simp: execSync_def)

lemma getCredentials_never_raises:
  assumes "reliable env" "\<forall>w. stripTrailingNewline (stdout env w) \<noteq> []"
  shows "raisesOnly (\<lambda>_. False) (getCredentials env)"
  unfolding getCredentials_def Let_def
  apply (rule raisesOnly_never_catch)
  apply (rule raisesOnly_andThen_returns [OF reliable_never [OF assms(1) raisesOnly_execSync] returnsOnly_execSync])
  apply (rule raisesOnly_andThen_returns [OF reliable_never [OF assms(1) raisesOnly_execSync] returnsOnly_execSync])
  using assms(2) apply auto
  done

lemma isPageInput_simps [simp]: "\<not> isPageInput (ConsoleLog l m)" "\<not> isPageInput (ExecSync command)"
  "\<not> isPageInput (Read what)" "\<not> isPageInput (Goto u)" "\<not> isPageInput (WaitForTimeout ms)"
  "\<not> isPageInput (StorageState path)"
  by simp_all

lemma checkIfLoggedIn_positive:
  assumes "page c \<noteq> None" "browserContext c \<noteq> None" "reliable env"
    and "(\<forall>w. sessionPayload env w) \<or> (\<forall>w. \<exists>name \<in> set (cookieNames env w). name \<in> set sessionCookieNames)"
  shows "\<exists>w'. checkIfLoggedIn env c w = (Inr True, w')
              \<and> filter isPageInput (trace w') = filter isPageInput (trace w)"
  using assms
  by (auto simp: checkIfLoggedIn_def andThen_def catch_def perform_def reliable_def observe_def
        debug_def console_def ret_def advance_def list_ex_iff)

lemma landing_reached:
  assumes "reliable env"
  shows "\<exists>w'. steps [log c Info ''Navigating to https://chatgpt.com/...'',
                       perform env (Goto landingUrl),
                       perform env (WaitForTimeout 2000)] w = (Inr (), w')
              \<and> filter isPageInput (trace w') = filter isPageInput (trace w)"
  using assms
  by (auto simp: andThen_def perform_def reliable_def log_def console_def ret_def advance_def)

lemma session_saved:
  assumes "browserContext c \<noteq> None" "reliable env"
  shows "\<exists>w'. steps [log c Info ''Already logged in!'', saveSession env c] w = (Inr (), w')
              \<and> StorageState (statePathOf c) \<in> set (trace w')
              \<and> filter isPageInput (trace w') = filter isPageInput (trace w)"
  using assms
  by (auto simp: saveSession_def andThen_def perform_def reliable_def log_def console_def ret_def
        advance_def)

text \<open>
  Claim C6. On an initialized instance, with the credentials at hand and no driver call
  throwing, a positive session probe (the session payload in the page, or a session
  cookie) makes \<^verbatim>\<open>loginInteractive\<close> return normally after it has written the
  session state to the state file of the profile, and no input into the page
  (click, fill, type, key press) is made.
\<close>

theorem login_with_existing_session:
  assumes "page c \<noteq> None" "browserContext c \<noteq> None" "reliable env"
    and "\<forall>w. stripTrailingNewline (stdout env w) \<noteq> []"
    and "(\<forall>w. sessionPayload env w) \<or> (\<forall>w. \<exists>name \<in> set (cookieNames env w). name \<in> set sessionCookieNames)"
  shows "\<exists>w'. loginInteractive env c w = (Inr (), w')
              \<and> StorageState (statePathOf c) \<in> set (trace w')
              \<and> filter isPageInput (trace w') = filter isPageInput (trace w)"
proof -
  obtain cr w1 where 1: "getCredentials env w = (Inr cr, w1)"
    using never_raises [OF getCredentials_never_raises [OF assms(3,4)]] by blast
  have k1: "filter isPageInput (trace w1) = filter isPageInput (trace w)"
    using keepsD [OF keeps_getCredentials 1] by simp
  obtain w2 where 2: "steps [log c Info ''Navigating to https://chatgpt.com/...'',
                       perform env (Goto landingUrl),
                       perform env (WaitForTimeout 2000)] w1 = (Inr (), w2)"
    and k2: "filter isPageInput (trace w2) = filter isPageInput (trace w1)"
    using landing_reached [OF assms(3)] by blast
  obtain w3 where 3: "checkIfLoggedIn env c w2 = (Inr True, w3)"
    and k3: "filter isPageInput (trace w3) = filter isPageInput (trace w2)"
    using checkIfLoggedIn_positive [OF assms(1,2,3,5)] by blast
  obtain w4 where 4: "steps [log c Info ''Already logged in!'', saveSession env c] w3 = (Inr (), w4)"
    and s: "StorageState (statePathOf c) \<in> set (trace w4)"
    and k4: "filter isPageInput (trace w4) = filter isPageInput (trace w3)"
    using session_saved [OF assms(2,3)] by blast
  have "loginInteractive env c w = (Inr (), w4)"
    using assms(1) 1 2 3 4 by (auto simp: loginInteractive_def andThen_def simp del: steps.simps)
  with s k1 k2 k3 k4 show ?thesis
    by simp
qed

lemma loggedInEnv_facts:
  "reliable loggedInEnv" "\<forall>w. stripTrailingNewline (stdout loggedInEnv w) \<noteq> []"
  "\<forall>w. sessionPayload loggedInEnv w"
  by (simp_all add: reliable_def loggedInEnv_def idleEnv_def stripTrailingNewline_def)

theorem login_with_existing_session_witness:
  "page cliDefault \<noteq> None \<and> browserContext cliDefault \<noteq> None \<and> reliable loggedInEnv
   \<and> (\<forall>w. stripTrailingNewline (stdout loggedInEnv w) \<noteq> [])
   \<and> (\<forall>w. sessionPayload loggedInEnv w)
   \<and> fst (loginInteractive loggedInEnv cliDefault startWorld) = Inr ()
   \<and> StorageState ''/home/user/.gpt5-pro-cli/default/browser-state.json''
        \<in> set (trace (snd (loginInteractive loggedInEnv cliDefault startWorld)))
   \<and> filter isPageInput (trace (snd (loginInteractive loggedInEnv cliDefault startWorld))) = []"
proof -
  have p: "page cliDefault \<noteq> None" "browserContext cliDefault \<noteq> None"
    by (simp_all add: cliDefault_def)
  have path: "statePathOf cliDefault = ''/home/user/.gpt5-pro-cli/default/browser-state.json''"
    by (simp add: statePathOf_def cliDefault_def newChatGPT_def noOptions_def Let_def)
  from login_with_existing_session [OF p loggedInEnv_facts(1,2), of startWorld] loggedInEnv_facts(3)
  obtain w' where "loginInteractive loggedInEnv cliDefault startWorld = (Inr (), w')"
    and "StorageState (statePathOf cliDefault) \<in> set (trace w')"
    and "filter isPageInput (trace w') = filter isPageInput (trace startWorld)"
    by blast
  then show ?thesis
    using p loggedInEnv_facts by (simp add: path startWorld_def)
qed

section \<open>Initialization and the saved session\<close>

lemma isNewContext_filter [simp]:
  "filter isNewContext (trace (advance env a w)) = filter isNewContext (trace w) @ (if isNewContext a then [a] else [])"
  by (simp add: advance_def)






end
